theory Spec2Isabelle
  imports Main "HOL-Library.Sublist"
begin

section \<open>Values of the runtime\<close>

text \<open>
  A JavaScript string is a \<^typ>\<open>string\<close>: one \<^typ>\<open>char\<close> for each UTF-16 code unit
  below 256, so \<^const>\<open>length\<close> is the \<open>.length\<close> of the source on such strings.

  The numbers this program handles are the results of \<open>Number(raw)\<close> that pass
  \<open>Number.isFinite\<close> and \<open>Number.isInteger\<close>, hence integers; every other result
  (NaN, an infinity, a fraction) is \<open>NonIntegral\<close>.
\<close>

datatype number = Integral int | NonIntegral

text \<open>
  Parsed JSON. A number is an integer-valued one; the members of an object are listed in
  the order in which the runtime enumerates them, each name once.
\<close>

datatype json =
    JNull
  | JBool bool
  | JNum int
  | JStr string
  | JArr "json list"
  | JObj "(string \<times> json) list"

text \<open>
  What a \<open>throw\<close> or a rejected promise carries: an \<open>Error\<close> object made by this program
  (with its message), a \<open>TypeError\<close> raised by the runtime, or the value \<open>fetch\<close> rejected
  with (named by a description).
\<close>

datatype thrown = Error string | TypeError | FetchRejected string

text \<open>
  The built-ins of the runtime are modelled concretely on the inputs where their result is
  spelled out below, and are parameters everywhere else: \<open>Number_rest\<close> is \<open>Number\<close> on the
  remaining strings, \<open>String_rest\<close> is \<open>String\<close> on numbers beyond \<open>2^53\<close>, \<open>JSON_parse_rest\<close>
  is \<open>JSON.parse\<close> (\<open>None\<close> when it throws) on the remaining texts. For
  \<open>new URL(s).toString()\<close> there are two: \<open>URL_path_rest\<close> on the remaining strings that
  are the origin of the service followed by a slash and anything (there the parser reads
  the origin as it stands and cannot fail in the path, the query or the fragment, so it
  returns a string), and \<open>URL_rest\<close>, which may throw, on every other string.
\<close>

record platform =
  Number_rest :: "string \<Rightarrow> number"
  String_rest :: "int \<Rightarrow> string"
  JSON_parse_rest :: "string \<Rightarrow> json option"
  URL_path_rest :: "string \<Rightarrow> string"
  URL_rest :: "string \<Rightarrow> thrown + string"

definition is_digit :: "char \<Rightarrow> bool" where
  "is_digit c = (c \<in> set ''0123456789'')"

definition digit_val :: "char \<Rightarrow> nat" where
  "digit_val c = of_char c - 48"

definition digits_val :: "string \<Rightarrow> nat" where
  "digits_val ds = foldl (\<lambda>a c. 10 * a + digit_val c) 0 ds"

text \<open>One to fifteen decimal digits: their value is below \<open>2^53\<close>, so it is a number exactly.\<close>

definition dec_digits :: "string \<Rightarrow> bool" where
  "dec_digits ds = (ds \<noteq> [] \<and> length ds \<le> 15 \<and> list_all is_digit ds)"

text \<open>
  The characters (below 256) that the grammar of a numeric string can hold: white space,
  digits, signs, the point, and the letters of hexadecimal, octal and binary literals, of
  exponents and of \<open>Infinity\<close>.
\<close>

definition numeric_char :: "char \<Rightarrow> bool" where
  "numeric_char c =
     (c \<in> set ''0123456789+-.abcdefABCDEFxXoOInity'' \<or>
      c \<in> set [CHR 0x09, CHR 0x0A, CHR 0x0B, CHR 0x0C, CHR 0x0D, CHR 0x20, CHR 0xA0])"

text \<open>
  \<open>Number(raw)\<close>: a decimal integer literal of at most fifteen digits, with an optional
  sign, is its value; a string with a character no numeric string holds is NaN.
\<close>

definition Number :: "platform \<Rightarrow> string \<Rightarrow> number" where
  "Number P raw =
     (case raw of
        [] \<Rightarrow> Number_rest P raw
      | c # ds \<Rightarrow>
          if c = CHR ''-'' \<and> dec_digits ds then Integral (- int (digits_val ds))
          else if c = CHR ''+'' \<and> dec_digits ds then Integral (int (digits_val ds))
          else if dec_digits raw then Integral (int (digits_val raw))
          else if \<not> list_all numeric_char raw then NonIntegral
          else Number_rest P raw)"

fun dec :: "nat \<Rightarrow> string" where
  "dec n = (if n < 10 then [''0123456789'' ! n] else dec (n div 10) @ [''0123456789'' ! (n mod 10)])"

declare dec.simps [simp del]

text \<open>\<open>String(n)\<close> for a number \<open>n\<close>: the decimal numeral up to \<open>2^53\<close>.\<close>

definition Number_toString :: "platform \<Rightarrow> int \<Rightarrow> string" where
  "Number_toString P n =
     (if \<bar>n\<bar> \<le> 2 ^ 53 then (if n < 0 then CHR ''-'' # dec (nat (- n)) else dec (nat n))
      else String_rest P n)"

section \<open>Constants and small helpers of \<open>main.ts\<close>\<close>

definition BASE_URL :: string where
  "BASE_URL = ''https://abacus.jasoncameron.dev''"

definition MAX_ATTEMPTS :: nat where
  "MAX_ATTEMPTS = 5"

definition MAX_LOG_BODY_CHARS :: nat where
  "MAX_LOG_BODY_CHARS = 2000"

definition invalid_integer_message :: "string \<Rightarrow> string \<Rightarrow> string" where
  "invalid_integer_message name raw =
     ''Invalid '' @ name @ '': expected integer, got '' @ [CHR 0x22] @ raw @ [CHR 0x22]"

definition parseInteger :: "platform \<Rightarrow> string \<Rightarrow> string \<Rightarrow> thrown + int" where
  "parseInteger P name raw =
     (case Number P raw of
        NonIntegral \<Rightarrow> Inl (Error (invalid_integer_message name raw))
      | Integral v \<Rightarrow> Inr v)"

section \<open>The request executor\<close>

text \<open>
  A response as the executor reads it: its status, what \<open>headers.get(name)\<close> answers, and
  what \<open>text()\<close> resolves to or rejects with.
\<close>

record response =
  status :: nat
  header :: "string \<Rightarrow> string option"
  body_text :: "thrown + string"

datatype fetched = Resolved response | Rejected thrown

text \<open>
  The variables of \<open>requestWithRetries\<close>, and the durations passed to \<open>sleep\<close> so far.
  The log lines (\<open>core.info\<close>, \<open>core.debug\<close>) are left out: they neither fail nor steer the
  loop.
\<close>

record exec_state =
  attempt :: nat
  backoffMs :: int
  slept :: "int list"

text \<open>What one pass through the \<open>try\<close> block comes to.\<close>

datatype outcome = Return response | Retry int | Caught thrown

definition tryAttempt :: "platform \<Rightarrow> fetched \<Rightarrow> exec_state \<Rightarrow> outcome" where
  "tryAttempt P f s =
     (case f of
        Rejected err \<Rightarrow> Caught err
      | Resolved res \<Rightarrow>
          if status res = 429 \<and> attempt s < MAX_ATTEMPTS then
            (case header res ''Retry-After'' of
               None \<Rightarrow> Retry (backoffMs s)
             | Some ra \<Rightarrow>
                 if ra = [] then Retry (backoffMs s)
                 else (case parseInteger P ''Retry-After'' ra of
                         Inl err \<Rightarrow> Caught err
                       | Inr n \<Rightarrow> Retry (max 0 n)))
          else if 500 \<le> status res \<and> status res \<le> 599 \<and> attempt s < MAX_ATTEMPTS then
            Retry (backoffMs s)
          else Return res)"

text \<open>\<open>await sleep(w); backoffMs = Math.min(backoffMs * 2, 8000)\<close>\<close>

definition sleepAndDouble :: "int \<Rightarrow> exec_state \<Rightarrow> exec_state" where
  "sleepAndDouble w s = s\<lparr>backoffMs := min (backoffMs s * 2) 8000, slept := slept s @ [w]\<rparr>"

text \<open>
  The \<open>while (true)\<close> loop; \<open>net k\<close> is what the \<open>k\<close>-th call of \<open>fetch\<close> comes to. The
  final state holds the number of calls made (\<open>attempt\<close>) and the waits.
\<close>

function requestLoop ::
  "platform \<Rightarrow> (nat \<Rightarrow> fetched) \<Rightarrow> exec_state \<Rightarrow> (thrown + response) \<times> exec_state" where
  "requestLoop P net s =
     (let s1 = s\<lparr>attempt := attempt s + 1\<rparr> in
      case tryAttempt P (net (attempt s1)) s1 of
        Return res \<Rightarrow> (Inr res, s1)
      | Retry w \<Rightarrow> requestLoop P net (sleepAndDouble w s1)
      | Caught err \<Rightarrow>
          if attempt s1 \<ge> MAX_ATTEMPTS then (Inl err, s1)
          else requestLoop P net (sleepAndDouble (backoffMs s1) s1))"
  by pat_completeness auto

termination requestLoop
proof (relation "measure (\<lambda>(P, net, s). MAX_ATTEMPTS - attempt s)")
  show "wf (measure (\<lambda>(P, net, s). MAX_ATTEMPTS - attempt s))"
    by simp
next
  fix P :: platform and net :: "nat \<Rightarrow> fetched" and s s1 :: exec_state and w :: int
  assume s1: "s1 = s\<lparr>attempt := attempt s + 1\<rparr>"
    and r: "tryAttempt P (net (attempt s1)) s1 = Retry w"
  from r have "attempt s1 < MAX_ATTEMPTS"
    by (auto simp: tryAttempt_def split: fetched.splits if_splits option.splits sum.splits)
  with s1
  show "((P, net, sleepAndDouble w s1), (P, net, s)) \<in> measure (\<lambda>(P, net, s). MAX_ATTEMPTS - attempt s)"
    by (simp add: sleepAndDouble_def)
next
  fix P :: platform and net :: "nat \<Rightarrow> fetched" and s s1 :: exec_state and err :: thrown
  assume s1: "s1 = s\<lparr>attempt := attempt s + 1\<rparr>"
    and "\<not> MAX_ATTEMPTS \<le> attempt s1"
  then show "((P, net, sleepAndDouble (backoffMs s1) s1), (P, net, s))
      \<in> measure (\<lambda>(P, net, s). MAX_ATTEMPTS - attempt s)"
    by (simp add: sleepAndDouble_def)
qed

declare requestLoop.simps [simp del]

definition requestWithRetries ::
  "platform \<Rightarrow> (nat \<Rightarrow> fetched) \<Rightarrow> (thrown + response) \<times> exec_state" where
  "requestWithRetries P net = requestLoop P net \<lparr>attempt = 0, backoffMs = 500, slept = []\<rparr>"

section \<open>Operations and the URL builder\<close>

text \<open>
  At run time an \<open>Operation\<close> is a string: \<open>run\<close> casts the raw input to the type without
  a check. The eight names of the type are \<open>Operation_names\<close>.
\<close>

definition Operation_names :: "string list" where
  "Operation_names = [''hit'', ''create'', ''get'', ''info'', ''set'', ''update'', ''reset'', ''delete'']"

datatype HttpMethod = GET | POST

definition isAdminOp :: "string \<Rightarrow> bool" where
  "isAdminOp op = (op = ''set'' \<or> op = ''update'' \<or> op = ''reset'' \<or> op = ''delete'')"

definition methodFor :: "string \<Rightarrow> HttpMethod" where
  "methodFor op = (if isAdminOp op then POST else GET)"

definition normalizeBaseUrl :: "string \<Rightarrow> string" where
  "normalizeBaseUrl u = (if u \<noteq> [] \<and> last u = CHR ''/'' then butlast u else u)"

definition alnum_chars :: string where
  "alnum_chars = ''ABCDEFGHIJKLMNOPQRSTUVWXYZabcdefghijklmnopqrstuvwxyz0123456789''"

definition pct :: "nat \<Rightarrow> string" where
  "pct n = [CHR ''%'', ''0123456789ABCDEF'' ! (n div 16), ''0123456789ABCDEF'' ! (n mod 16)]"

text \<open>
  \<open>encodeURIComponent\<close>, one code unit at a time: the unreserved characters stay, every
  other one is the percent-encoding of its UTF-8 bytes (one byte below 128, two from there
  to 255).
\<close>

definition uri_unreserved :: "char \<Rightarrow> bool" where
  "uri_unreserved c = (c \<in> set alnum_chars \<or> c \<in> set ''-_.!~*()'' \<or> c = CHR 0x27)"

definition encode_unit :: "char \<Rightarrow> string" where
  "encode_unit c =
     (if uri_unreserved c then [c]
      else if (of_char c :: nat) < 128 then pct (of_char c)
      else pct (192 + of_char c div 64) @ pct (128 + of_char c mod 64))"

definition encodeURIComponent :: "string \<Rightarrow> string" where
  "encodeURIComponent s = concat (map encode_unit s)"

text \<open>
  The serialiser of \<open>URLSearchParams\<close> (form-urlencoded), one code unit at a time:
  letters, digits and \<open>*-._\<close> stay, a space is \<open>+\<close>, every other one is the
  percent-encoding of its UTF-8 bytes.
\<close>

definition form_unit :: "char \<Rightarrow> string" where
  "form_unit c =
     (if c \<in> set alnum_chars \<or> c \<in> set ''*-._'' then [c]
      else if c = CHR 0x20 then ''+''
      else if (of_char c :: nat) < 128 then pct (of_char c)
      else pct (192 + of_char c div 64) @ pct (128 + of_char c mod 64))"

definition formEncode :: "string \<Rightarrow> string" where
  "formEncode s = concat (map form_unit s)"

fun split_slash :: "string \<Rightarrow> string list" where
  "split_slash [] = [[]]"
| "split_slash (c # cs) =
     (if c = CHR ''/'' then [] # split_slash cs
      else (c # hd (split_slash cs)) # tl (split_slash cs))"

text \<open>
  A path the URL parser leaves as it is: it starts with a slash, holds only slashes and
  characters outside every percent-encode set (and no \<open>%\<close>, \<open>?\<close>, \<open>#\<close> or backslash), and
  none of its segments is \<open>.\<close> or \<open>..\<close>.
\<close>

definition plain_path_char :: "char \<Rightarrow> bool" where
  "plain_path_char c = (c \<in> set alnum_chars \<or> c \<in> set ''-_.!~*()/'' \<or> c = CHR 0x27)"

definition plain_path :: "string \<Rightarrow> bool" where
  "plain_path p =
     (p \<noteq> [] \<and> hd p = CHR ''/'' \<and> list_all plain_path_char p \<and>
      ''.'' \<notin> set (split_slash p) \<and> ''..'' \<notin> set (split_slash p))"

text \<open>
  \<open>new URL(s)\<close> read back with \<open>toString()\<close>: the origin of the service followed by a plain
  path is a URL already in its serialised form; followed by a slash and any other
  characters it is parsed without failure, into the string \<open>URL_path_rest\<close> gives.
\<close>

definition URL_new :: "platform \<Rightarrow> string \<Rightarrow> thrown + string" where
  "URL_new P s =
     (if take 31 s = ''https://abacus.jasoncameron.dev'' \<and> plain_path (drop 31 s) then Inr s
      else if take 32 s = ''https://abacus.jasoncameron.dev/'' then Inr (URL_path_rest P s)
      else URL_rest P s)"

text \<open>
  \<open>buildUrl\<close>. At most one of the two \<open>searchParams.set\<close> runs, and only when \<open>op\<close> is
  \<open>create\<close>, \<open>set\<close> or \<open>update\<close>; the parsed string then has neither query nor fragment, so
  the result is the parsed URL, \<open>?\<close> and the pair.
\<close>

definition buildUrl ::
  "platform \<Rightarrow> string \<Rightarrow> string \<Rightarrow> string \<Rightarrow> int option \<Rightarrow> int option \<Rightarrow> thrown + string" where
  "buildUrl P op namespace key initializer val =
     (let base = normalizeBaseUrl BASE_URL;
          path = ''/'' @ op @ ''/'' @ encodeURIComponent namespace @ ''/'' @ encodeURIComponent key
      in case URL_new P (base @ path) of
           Inl err \<Rightarrow> Inl err
         | Inr href \<Rightarrow>
             if op = ''create'' \<and> initializer \<noteq> None then
               Inr (href @ ''?initializer='' @ formEncode (Number_toString P (the initializer)))
             else if (op = ''set'' \<or> op = ''update'') \<and> val \<noteq> None then
               Inr (href @ ''?value='' @ formEncode (Number_toString P (the val)))
             else Inr href)"

section \<open>Input validation\<close>

definition js_space :: "char \<Rightarrow> bool" where
  "js_space c = (c \<in> set [CHR 0x09, CHR 0x0A, CHR 0x0B, CHR 0x0C, CHR 0x0D, CHR 0x20, CHR 0xA0])"

definition js_trim :: "string \<Rightarrow> string" where
  "js_trim s = rev (dropWhile js_space (rev (dropWhile js_space s)))"

definition requireNonEmpty :: "string \<Rightarrow> string \<Rightarrow> thrown + unit" where
  "requireNonEmpty name v =
     (if v = [] \<or> length (js_trim v) = 0 then Inl (Error (''Missing required input: '' @ name))
      else Inr ())"

definition name_char :: "char \<Rightarrow> bool" where
  "name_char c = (c \<in> set alnum_chars \<or> c \<in> set ''_.-'')"

definition NAME_RE_test :: "string \<Rightarrow> bool" where
  "NAME_RE_test v = (3 \<le> length v \<and> length v \<le> 64 \<and> list_all name_char v)"

definition validateName :: "string \<Rightarrow> string \<Rightarrow> thrown + unit" where
  "validateName kind v =
     (if \<not> NAME_RE_test v then
        Inl (Error (''Invalid '' @ kind @ '': must match ^[A-Za-z0-9_-.]{3,64}$ (got ''
                    @ [CHR 0x22] @ v @ [CHR 0x22] @ '')''))
      else Inr ())"

section \<open>The redacting logger\<close>

text \<open>The marker starts with the character U+2026, written here as its three UTF-8 bytes.\<close>

definition ellipsis :: string where
  "ellipsis = [CHR 0xE2, CHR 0x80, CHR 0xA6]"

definition truncate_str :: "string \<Rightarrow> nat \<Rightarrow> string" where
  "truncate_str s mx =
     (if length s \<le> mx then s
      else take mx s @ ellipsis @ '' [truncated '' @ dec (length s - mx) @ '' chars]'')"

definition redactKeys :: "string list" where
  "redactKeys = [''admin_key'', ''authorization'', ''Authorization'']"

definition mask_token :: string where
  "mask_token = ''***''"

text \<open>The replacer \<open>(k, v) => keys.has(k) ? "***" : v\<close>.\<close>

definition replacer :: "string list \<Rightarrow> string \<Rightarrow> json \<Rightarrow> json" where
  "replacer keys k v = (if k \<in> set keys then JStr mask_token else v)"

definition quote_unit :: "char \<Rightarrow> string" where
  "quote_unit c =
     (if c = CHR 0x08 then [CHR 0x5C, CHR ''b'']
      else if c = CHR 0x09 then [CHR 0x5C, CHR ''t'']
      else if c = CHR 0x0A then [CHR 0x5C, CHR ''n'']
      else if c = CHR 0x0C then [CHR 0x5C, CHR ''f'']
      else if c = CHR 0x0D then [CHR 0x5C, CHR ''r'']
      else if c = CHR 0x22 then [CHR 0x5C, CHR 0x22]
      else if c = CHR 0x5C then [CHR 0x5C, CHR 0x5C]
      else if (of_char c :: nat) < 32 then
        [CHR 0x5C, CHR ''u'', CHR ''0'', CHR ''0'',
         ''0123456789abcdef'' ! (of_char c div 16), ''0123456789abcdef'' ! (of_char c mod 16)]
      else [c])"

definition QuoteJSONString :: "string \<Rightarrow> string" where
  "QuoteJSONString s = [CHR 0x22] @ concat (map quote_unit s) @ [CHR 0x22]"

fun join :: "string \<Rightarrow> string list \<Rightarrow> string" where
  "join sep [] = []"
| "join sep [x] = x"
| "join sep (x # y # ys) = x @ sep @ join sep (y # ys)"

text \<open>
  \<open>JSON.stringify(input, replacer, 2)\<close> on parsed JSON, after the algorithm of the language
  standard: \<open>SerializeJSONProperty\<close> passes the value of each property (the root under the
  name \<open>""\<close>, an array element under its index) through the replacer first, then writes
  it; the gap is two spaces.
\<close>

function SerializeJSONProperty ::
  "platform \<Rightarrow> string list \<Rightarrow> string \<Rightarrow> string \<Rightarrow> json \<Rightarrow> string" where
  "SerializeJSONProperty P keys indent k v =
     (case replacer keys k v of
        JNull \<Rightarrow> ''null''
      | JBool b \<Rightarrow> (if b then ''true'' else ''false'')
      | JNum n \<Rightarrow> Number_toString P n
      | JStr s \<Rightarrow> QuoteJSONString s
      | JArr xs \<Rightarrow>
          if xs = [] then ''[]''
          else ''['' @ [CHR 0x0A] @ (indent @ ''  '')
            @ join ('','' @ [CHR 0x0A] @ (indent @ ''  ''))
                (map (\<lambda>(i, x). SerializeJSONProperty P keys (indent @ ''  '') (dec i) x)
                   (enumerate 0 xs))
            @ [CHR 0x0A] @ indent @ '']''
      | JObj fs \<Rightarrow>
          if fs = [] then ''{}''
          else ''{'' @ [CHR 0x0A] @ (indent @ ''  '')
            @ join ('','' @ [CHR 0x0A] @ (indent @ ''  ''))
                (map (\<lambda>(name, x). QuoteJSONString name @ '': ''
                        @ SerializeJSONProperty P keys (indent @ ''  '') name x) fs)
            @ [CHR 0x0A] @ indent @ ''}'')"
  by pat_completeness auto
termination
proof (relation "measure (\<lambda>(P, keys, indent, k, v). size v)")
  show "wf (measure (\<lambda>(P, keys, indent, k, v). size v))"
    by simp
next
  fix P :: platform and keys :: "string list" and indent k :: string and v :: json
    and xs :: "json list" and z :: "nat \<times> json" and i :: nat and x :: json
  assume "replacer keys k v = JArr xs" and "z \<in> set (enumerate 0 xs)" and "(i, x) = z"
  then have "v = JArr xs" and "x \<in> set xs"
    by (auto simp: replacer_def in_set_enumerate_eq split: if_splits)
  then have "size x < size v"
    by (auto simp: less_Suc_eq_le size_list_estimation')
  then show "((P, keys, indent @ ''  '', dec i, x), (P, keys, indent, k, v))
      \<in> measure (\<lambda>(P, keys, indent, k, v). size v)"
    by simp
next
  fix P :: platform and keys :: "string list" and indent k :: string and v :: json
    and fs :: "(string \<times> json) list" and z :: "string \<times> json" and name :: string and x :: json
  assume "replacer keys k v = JObj fs" and "z \<in> set fs" and "(name, x) = z"
  then have "v = JObj fs" and "(name, x) \<in> set fs"
    by (auto simp: replacer_def split: if_splits)
  then have "size x < size v"
    by (auto simp: less_Suc_eq_le intro!: size_list_estimation' [where y = "size x"])
  then show "((P, keys, indent @ ''  '', name, x), (P, keys, indent, k, v))
      \<in> measure (\<lambda>(P, keys, indent, k, v). size v)"
    by simp
qed

declare SerializeJSONProperty.simps [simp del]

definition JSON_stringify :: "platform \<Rightarrow> string list \<Rightarrow> json \<Rightarrow> string" where
  "JSON_stringify P keys v = SerializeJSONProperty P keys [] [] v"

text \<open>
  \<open>sanitizeForLogs\<close>: a string is logged as it is, anything else through
  \<open>JSON.stringify\<close>, which does not throw on parsed JSON.
\<close>

definition sanitizeForLogs :: "platform \<Rightarrow> json \<Rightarrow> string" where
  "sanitizeForLogs P input =
     (case input of
        JStr s \<Rightarrow> truncate_str s MAX_LOG_BODY_CHARS
      | _ \<Rightarrow> truncate_str (JSON_stringify P redactKeys input) MAX_LOG_BODY_CHARS)"

section \<open>The response interpreter\<close>

text \<open>
  \<open>JSON.parse\<close>: a JSON text starts, after white space, with the first character of a
  value; any other text (an empty or blank one too) is a syntax error.
\<close>

definition json_space :: "char \<Rightarrow> bool" where
  "json_space c = (c \<in> set [CHR 0x09, CHR 0x0A, CHR 0x0D, CHR 0x20])"

definition JSON_parse :: "platform \<Rightarrow> string \<Rightarrow> json option" where
  "JSON_parse P raw =
     (case dropWhile json_space raw of
        [] \<Rightarrow> None
      | c # _ \<Rightarrow>
          if c \<in> set ''-0123456789tfn{['' \<or> c = CHR 0x22 then JSON_parse_rest P raw else None)"

definition readJsonSafely :: "platform \<Rightarrow> response \<Rightarrow> thrown + string \<times> json" where
  "readJsonSafely P res =
     (case body_text res of
        Inl err \<Rightarrow> Inl err
      | Inr rawText \<Rightarrow>
          if rawText = [] then Inr ([], JObj [])
          else (case JSON_parse P rawText of
                  Some j \<Rightarrow> Inr (rawText, j)
                | None \<Rightarrow> Inr (rawText, JObj [(''error'', JStr rawText)])))"

text \<open>\<open>res.ok\<close>\<close>

definition ok :: "response \<Rightarrow> bool" where
  "ok res = (200 \<le> status res \<and> status res \<le> 299)"

text \<open>
  \<open>payload?.[k]\<close> for the names this program reads (none of them is a property of a
  prototype): \<open>None\<close> is \<open>undefined\<close>.
\<close>

definition prop_of :: "json \<Rightarrow> string \<Rightarrow> json option" where
  "prop_of payload k = (case payload of JObj fs \<Rightarrow> map_of fs k | _ \<Rightarrow> None)"

text \<open>
  \<open>String(v)\<close> on parsed JSON. An array is its elements joined by commas, \<open>null\<close> as the
  empty string; an object is \<open>[object Object]\<close>, unless it has a member \<open>toString\<close> of its
  own: that one is not callable, and the conversion throws a \<open>TypeError\<close>.
\<close>

fun convertible :: "json \<Rightarrow> bool" where
  "convertible (JArr xs) = list_all convertible xs"
| "convertible (JObj fs) = (''toString'' \<notin> set (map fst fs))"
| "convertible _ = True"

fun ToString :: "platform \<Rightarrow> json \<Rightarrow> string" where
  "ToString P JNull = ''null''"
| "ToString P (JBool b) = (if b then ''true'' else ''false'')"
| "ToString P (JNum n) = Number_toString P n"
| "ToString P (JStr s) = s"
| "ToString P (JArr xs) = join '','' (map (\<lambda>x. if x = JNull then [] else ToString P x) xs)"
| "ToString P (JObj fs) = ''[object Object]''"

definition String_of :: "platform \<Rightarrow> json \<Rightarrow> thrown + string" where
  "String_of P v = (if convertible v then Inr (ToString P v) else Inl TypeError)"

section \<open>The action\<close>

text \<open>The inputs, as \<open>core.getInput\<close> returns them (the empty string when not given).\<close>

record inputs =
  operation_in :: string
  namespace_in :: string
  key_in :: string
  initializer_in :: string
  value_in :: string
  admin_key_in :: string

record request =
  url :: string
  http_method :: HttpMethod
  headers :: "(string \<times> string) list"

text \<open>
  What a run does to the world: the requests passed to \<open>fetch\<close>, one entry for each call,
  the waits, the values given to \<open>core.setSecret\<close> and the outputs set.
\<close>

record effects =
  fetches :: "request list"
  sleeps :: "int list"
  secrets :: "string list"
  outputs :: "(string \<times> string) list"

definition no_effects :: effects where
  "no_effects = \<lparr>fetches = [], sleeps = [], secrets = [], outputs = []\<rparr>"

text \<open>\<open>setOutputIfPresent(name, payload[name])\<close> for each of the names, in order.\<close>

fun setOutputs :: "platform \<Rightarrow> json \<Rightarrow> string list \<Rightarrow> effects \<Rightarrow> (thrown + unit) \<times> effects" where
  "setOutputs P payload [] fx = (Inr (), fx)"
| "setOutputs P payload (name # names) fx =
     (case prop_of payload name of
        None \<Rightarrow> setOutputs P payload names fx
      | Some v \<Rightarrow>
          if v = JNull then setOutputs P payload names fx
          else (case String_of P v of
                  Inl err \<Rightarrow> (Inl err, fx)
                | Inr s \<Rightarrow> setOutputs P payload names (fx\<lparr>outputs := outputs fx @ [(name, s)]\<rparr>)))"

declare setOutputs.simps [simp del]

text \<open>
  The end of \<open>run\<close>, from \<open>readJsonSafely\<close> on. Reading \<open>payload.value\<close> of \<open>null\<close> throws a
  \<open>TypeError\<close>.
\<close>

definition interpretResponse :: "platform \<Rightarrow> string \<Rightarrow> response \<Rightarrow> effects \<Rightarrow> (thrown + unit) \<times> effects" where
  "interpretResponse P operation res fx =
     (case readJsonSafely P res of
        Inl err \<Rightarrow> (Inl err, fx)
      | Inr (rawText, payload) \<Rightarrow>
          if \<not> ok res then
            (Inl (Error ((case prop_of payload ''error'' of
                            Some (JStr s) \<Rightarrow> s
                          | _ \<Rightarrow> ''Request failed with status '' @ dec (status res))
                         @ '' (operation='' @ operation @ '')'')), fx)
          else if payload = JNull then (Inl TypeError, fx)
          else (case setOutputs P payload [''value''] fx of
                  (Inl err, fx1) \<Rightarrow> (Inl err, fx1)
                | (Inr _, fx1) \<Rightarrow>
                    if operation = ''create'' then
                      (case setOutputs P payload [''namespace'', ''key'', ''admin_key''] fx1 of
                         (Inl err, fx2) \<Rightarrow> (Inl err, fx2)
                       | (Inr _, fx2) \<Rightarrow>
                           (case prop_of payload ''admin_key'' of
                              Some (JStr s) \<Rightarrow> (Inr (), fx2\<lparr>secrets := secrets fx2 @ [s]\<rparr>)
                            | _ \<Rightarrow> (Inr (), fx2)))
                    else if operation = ''info'' then
                      setOutputs P payload
                        [''exists'', ''expires_in'', ''expires_str'', ''full_key'', ''is_genuine''] fx1
                    else if operation = ''delete'' then
                      setOutputs P payload [''status'', ''message''] fx1
                    else (Inr (), fx1)))"

text \<open>A \<open>throw\<close> skips the statements after it: \<open>and_then r f\<close> goes on with \<open>f\<close> unless \<open>r\<close> threw.\<close>

definition and_then :: "thrown + 'a \<Rightarrow> ('a \<Rightarrow> thrown + 'b) \<Rightarrow> thrown + 'b" where
  "and_then r f = (case r of Inl err \<Rightarrow> Inl err | Inr x \<Rightarrow> f x)"

text \<open>The four checks of \<open>namespace\<close> and \<open>key\<close> at the start of \<open>run\<close>.\<close>

definition checkNames :: "string \<Rightarrow> string \<Rightarrow> thrown + unit" where
  "checkNames namespace key =
     and_then (requireNonEmpty ''namespace'' namespace) (\<lambda>_.
     and_then (requireNonEmpty ''key'' key) (\<lambda>_.
     and_then (validateName ''namespace'' namespace) (\<lambda>_.
     validateName ''key'' key)))"

text \<open>
  The check that \<open>set\<close> and \<open>update\<close> have a \<open>value\<close>, then \<open>initializer\<close> and \<open>value\<close> as
  \<open>run\<close> computes them (\<open>None\<close> is \<open>undefined\<close>).
\<close>

definition parseParameters ::
  "platform \<Rightarrow> string \<Rightarrow> string \<Rightarrow> string \<Rightarrow> thrown + int option \<times> int option" where
  "parseParameters P operation initializerRaw valueRaw =
     (if (operation = ''set'' \<or> operation = ''update'') \<and> (valueRaw = [] \<or> js_trim valueRaw = [])
      then Inl (Error (''Missing required input: value (required for operation='' @ operation @ '')''))
      else
        and_then (if operation = ''create''
                  then map_sum id Some (parseInteger P ''initializer'' initializerRaw)
                  else Inr None) (\<lambda>initializer.
        and_then (if operation = ''set'' \<or> operation = ''update''
                  then map_sum id Some (parseInteger P ''value'' valueRaw)
                  else Inr None) (\<lambda>val.
        Inr (initializer, val))))"

definition headersFor :: "string \<Rightarrow> string \<Rightarrow> (string \<times> string) list" where
  "headersFor operation adminKey =
     [(''Accept'', ''application/json'')]
       @ (if isAdminOp operation then [(''Authorization'', ''Bearer '' @ adminKey)] else [])"

text \<open>
  The request and what follows it. \<open>server req k\<close> is what the \<open>k\<close>-th \<open>fetch\<close> of the
  request \<open>req\<close> comes to; the loop calls \<open>fetch\<close> once for each value of its attempt
  counter.
\<close>

definition dispatch ::
  "platform \<Rightarrow> (request \<Rightarrow> nat \<Rightarrow> fetched) \<Rightarrow> string \<Rightarrow> request \<Rightarrow> effects
     \<Rightarrow> (thrown + unit) \<times> effects" where
  "dispatch P server operation req fx =
     (case requestWithRetries P (server req) of
        (Inl err, st) \<Rightarrow> (Inl err, fx\<lparr>fetches := replicate (attempt st) req, sleeps := slept st\<rparr>)
      | (Inr res, st) \<Rightarrow>
          interpretResponse P operation res
            (fx\<lparr>fetches := replicate (attempt st) req, sleeps := slept st\<rparr>))"

text \<open>\<open>core.getInput("operation") || "hit"\<close>\<close>

definition operationOf :: "inputs \<Rightarrow> string" where
  "operationOf inp = (if operation_in inp = [] then ''hit'' else operation_in inp)"

text \<open>\<open>run\<close>, with the result that \<open>run().catch\<close> reports and the effects up to there.\<close>

definition run ::
  "platform \<Rightarrow> (request \<Rightarrow> nat \<Rightarrow> fetched) \<Rightarrow> inputs \<Rightarrow> (thrown + unit) \<times> effects" where
  "run P server inp =
     (let operation = operationOf inp;
          namespace = namespace_in inp;
          key = key_in inp;
          initializerRaw = (if initializer_in inp = [] then ''0'' else initializer_in inp);
          valueRaw = value_in inp;
          adminKey = admin_key_in inp;
          fx = no_effects\<lparr>secrets := (if isAdminOp operation then [adminKey] else [])\<rparr>
      in
      case checkNames namespace key of
        Inl err \<Rightarrow> (Inl err, no_effects)
      | Inr _ \<Rightarrow>
          (case (if isAdminOp operation then requireNonEmpty ''admin_key'' adminKey else Inr ()) of
             Inl err \<Rightarrow> (Inl err, no_effects)
           | Inr _ \<Rightarrow>
               (case and_then (parseParameters P operation initializerRaw valueRaw)
                       (\<lambda>(initializer, val). buildUrl P operation namespace key initializer val) of
                  Inl err \<Rightarrow> (Inl err, fx)
                | Inr u \<Rightarrow>
                    dispatch P server operation
                      \<lparr>url = u, http_method = methodFor operation,
                       headers = headersFor operation adminKey\<rparr> fx)))"

section \<open>The redaction the specification describes\<close>

text \<open>
  The specification's words for the logger: a field whose name matches \<open>admin_key\<close> or
  \<open>authorization\<close>, whatever the case of its letters, is replaced by the mask_token before the
  value is serialised. \<open>mask_fields\<close> does the replacement for a given test of names, at
  every depth.
\<close>

definition ascii_lower :: "char \<Rightarrow> char" where
  "ascii_lower c =
     (case map_of (zip ''ABCDEFGHIJKLMNOPQRSTUVWXYZ'' ''abcdefghijklmnopqrstuvwxyz'') c of
        Some l \<Rightarrow> l
      | None \<Rightarrow> c)"

definition credential_like :: "string \<Rightarrow> bool" where
  "credential_like k = (map ascii_lower k \<in> set [''admin_key'', ''authorization''])"

fun mask_fields :: "(string \<Rightarrow> bool) \<Rightarrow> json \<Rightarrow> json" where
  "mask_fields secret (JArr xs) = JArr (map (mask_fields secret) xs)"
| "mask_fields secret (JObj fs) =
     JObj (map (\<lambda>(k, x). (k, if secret k then JStr mask_token else mask_fields secret x)) fs)"
| "mask_fields secret v = v"

text \<open>No field with a secret name holds anything but the mask_token.\<close>

fun masked :: "(string \<Rightarrow> bool) \<Rightarrow> json \<Rightarrow> bool" where
  "masked secret (JArr xs) = list_all (masked secret) xs"
| "masked secret (JObj fs) =
     list_all (\<lambda>(k, x). if secret k then x = JStr mask_token else masked secret x) fs"
| "masked secret v = True"

section \<open>Sample data\<close>

definition too_many_requests :: "string option \<Rightarrow> response" where
  "too_many_requests ra =
     \<lparr>status = 429, header = (\<lambda>_. None)(''Retry-After'' := ra), body_text = Inr ''Too Many Requests''\<rparr>"

definition service_unavailable :: response where
  "service_unavailable = \<lparr>status = 503, header = (\<lambda>_. None), body_text = Inr []\<rparr>"

definition success :: response where
  "success = \<lparr>status = 200, header = (\<lambda>_. None), body_text = Inr []\<rparr>"

text \<open>
  A platform for evaluating at concrete inputs. The runs evaluated with it stay within the
  inputs on which the built-ins are modelled concretely, so none of its fields is
  consulted there.
\<close>

definition fallback_platform :: platform where
  "fallback_platform =
     \<lparr>Number_rest = (\<lambda>_. NonIntegral), String_rest = (\<lambda>_. []),
      JSON_parse_rest = (\<lambda>_. None), URL_path_rest = (\<lambda>s. s),
      URL_rest = (\<lambda>_. Inl TypeError)\<rparr>"

definition not_found :: response where
  "not_found = \<lparr>status = 404, header = (\<lambda>_. None), body_text = Inr []\<rparr>"

definition success_html :: response where
  "success_html = \<lparr>status = 200, header = (\<lambda>_. None), body_text = Inr ''<html>''\<rparr>"


definition set_inputs :: inputs where
  "set_inputs =
     \<lparr>operation_in = ''set'', namespace_in = ''my-org'', key_in = ''build-api'',
      initializer_in = [], value_in = ''1000'', admin_key_in = ''s3cret''\<rparr>"

definition create_inputs :: inputs where
  "create_inputs =
     \<lparr>operation_in = ''create'', namespace_in = ''my-org'', key_in = ''build-api'',
      initializer_in = [], value_in = [], admin_key_in = []\<rparr>"

definition hit_inputs :: inputs where
  "hit_inputs =
     \<lparr>operation_in = [], namespace_in = ''my-org'', key_in = ''build-api'',
      initializer_in = [], value_in = [], admin_key_in = []\<rparr>"

definition spaced_inputs :: inputs where
  "spaced_inputs =
     \<lparr>operation_in = ''a b'', namespace_in = ''my-org'', key_in = ''build-api'',
      initializer_in = [], value_in = [], admin_key_in = []\<rparr>"

definition bump_inputs :: inputs where
  "bump_inputs =
     \<lparr>operation_in = ''bump'', namespace_in = ''my-org'', key_in = ''build-api'',
      initializer_in = [], value_in = [], admin_key_in = []\<rparr>"

section \<open>Properties of the request executor\<close>

lemma requestLoop_Return:
  "attempt s + 1 = k \<Longrightarrow> tryAttempt P (net k) (s\<lparr>attempt := k\<rparr>) = Return res \<Longrightarrow>
   requestLoop P net s = (Inr res, s\<lparr>attempt := k\<rparr>)"
  by (subst requestLoop.simps) (auto simp add: Let_def)

lemma requestLoop_Retry:
  "attempt s + 1 = k \<Longrightarrow> tryAttempt P (net k) (s\<lparr>attempt := k\<rparr>) = Retry w \<Longrightarrow>
   requestLoop P net s = requestLoop P net (sleepAndDouble w (s\<lparr>attempt := k\<rparr>))"
  by (subst requestLoop.simps) (auto simp add: Let_def)

lemma requestLoop_Caught:
  "attempt s + 1 = k \<Longrightarrow> tryAttempt P (net k) (s\<lparr>attempt := k\<rparr>) = Caught err \<Longrightarrow>
   requestLoop P net s =
     (if MAX_ATTEMPTS \<le> k then (Inl err, s\<lparr>attempt := k\<rparr>)
      else requestLoop P net (sleepAndDouble (backoffMs s) (s\<lparr>attempt := k\<rparr>)))"
  by (subst requestLoop.simps) (auto simp add: Let_def)

lemma Number_2: "Number P ''2'' = Integral 2"
  by (simp add: Number_def dec_digits_def is_digit_def digits_val_def digit_val_def)

lemma Number_soon: "Number P ''soon'' = NonIntegral"
  by (simp add: Number_def dec_digits_def is_digit_def numeric_char_def)

text \<open>
  C1. On the responses 429 with \<open>Retry-After: 2\<close>, 429 without the header, then 200, the
  executor sleeps 2, then the backoff of that moment (1000, the initial 500 doubled after
  the first retry), and returns the third response after three calls of \<open>fetch\<close>.
\<close>

theorem requestWithRetries_rate_limited_twice:
  assumes "net 1 = Resolved r1" "status r1 = 429" "header r1 ''Retry-After'' = Some ''2''"
    and "net 2 = Resolved r2" "status r2 = 429" "header r2 ''Retry-After'' = None"
    and "net 3 = Resolved r3" "status r3 = 200"
  shows "requestWithRetries P net
           = (Inr r3, \<lparr>attempt = 3, backoffMs = 2000, slept = [2, 1000]\<rparr>)"
proof -
  have "requestLoop P net \<lparr>attempt = 0, backoffMs = 500, slept = []\<rparr>
      = requestLoop P net \<lparr>attempt = 1, backoffMs = 1000, slept = [2]\<rparr>"
    using assms(1-3)
    by (subst requestLoop_Retry [where w = 2 and k = 1])
       (simp_all add: tryAttempt_def MAX_ATTEMPTS_def parseInteger_def Number_2 sleepAndDouble_def)
  also have "\<dots> = requestLoop P net \<lparr>attempt = 2, backoffMs = 2000, slept = [2, 1000]\<rparr>"
    using assms(4-6)
    by (subst requestLoop_Retry [where w = 1000 and k = 2])
       (simp_all add: tryAttempt_def MAX_ATTEMPTS_def sleepAndDouble_def)
  also have "\<dots> = (Inr r3, \<lparr>attempt = 3, backoffMs = 2000, slept = [2, 1000]\<rparr>)"
    using assms(7-8)
    by (subst requestLoop_Return [where res = r3 and k = 3]) (simp_all add: tryAttempt_def)
  finally show ?thesis
    by (simp add: requestWithRetries_def)
qed

theorem requestWithRetries_rate_limited_twice_witness:
  "\<forall>P. requestWithRetries P
          ((\<lambda>_. Rejected (FetchRejected ''unreachable''))
             (1 := Resolved (too_many_requests (Some ''2'')),
              2 := Resolved (too_many_requests None),
              3 := Resolved success))
        = (Inr success, \<lparr>attempt = 3, backoffMs = 2000, slept = [2, 1000]\<rparr>)"
  using requestWithRetries_rate_limited_twice
    [where ?r1.0 = "too_many_requests (Some ''2'')" and ?r2.0 = "too_many_requests None"
       and ?r3.0 = success]
  by (simp add: too_many_requests_def success_def)

text \<open>
  C2. On five responses with status 503 the executor calls \<open>fetch\<close> five times, sleeping
  500, 1000, 2000 and 4000 in between, and returns the fifth response: a result, not a
  thrown error.
\<close>

theorem requestWithRetries_five_503:
  assumes "\<And>k. 1 \<le> k \<Longrightarrow> k \<le> 5 \<Longrightarrow> net k = Resolved (r k)"
    and "\<And>k. 1 \<le> k \<Longrightarrow> k \<le> 5 \<Longrightarrow> status (r k) = 503"
  shows "requestWithRetries P net
           = (Inr (r 5), \<lparr>attempt = 5, backoffMs = 8000, slept = [500, 1000, 2000, 4000]\<rparr>)"
proof -
  have retry: "tryAttempt P (net k) s = Retry (backoffMs s)"
    if "1 \<le> k" "k \<le> 5" "attempt s < 5" for k s
    using that assms(1) [of k] assms(2) [of k] by (simp add: tryAttempt_def MAX_ATTEMPTS_def)
  have "requestLoop P net \<lparr>attempt = 0, backoffMs = 500, slept = []\<rparr>
      = requestLoop P net \<lparr>attempt = 1, backoffMs = 1000, slept = [500]\<rparr>"
    by (subst requestLoop_Retry [where w = 500 and k = 1]) (simp_all add: retry sleepAndDouble_def)
  also have "\<dots> = requestLoop P net \<lparr>attempt = 2, backoffMs = 2000, slept = [500, 1000]\<rparr>"
    by (subst requestLoop_Retry [where w = 1000 and k = 2]) (simp_all add: retry sleepAndDouble_def)
  also have "\<dots> = requestLoop P net \<lparr>attempt = 3, backoffMs = 4000, slept = [500, 1000, 2000]\<rparr>"
    by (subst requestLoop_Retry [where w = 2000 and k = 3]) (simp_all add: retry sleepAndDouble_def)
  also have "\<dots> = requestLoop P net
      \<lparr>attempt = 4, backoffMs = 8000, slept = [500, 1000, 2000, 4000]\<rparr>"
    by (subst requestLoop_Retry [where w = 4000 and k = 4]) (simp_all add: retry sleepAndDouble_def)
  also have "\<dots> = (Inr (r 5), \<lparr>attempt = 5, backoffMs = 8000, slept = [500, 1000, 2000, 4000]\<rparr>)"
    using assms(1) [of 5] assms(2) [of 5]
    by (subst requestLoop_Return [where res = "r 5" and k = 5])
       (simp_all add: tryAttempt_def MAX_ATTEMPTS_def)
  finally show ?thesis
    by (simp add: requestWithRetries_def)
qed

theorem requestWithRetries_five_503_witness:
  "\<forall>P. requestWithRetries P (\<lambda>_. Resolved service_unavailable)
        = (Inr service_unavailable,
           \<lparr>attempt = 5, backoffMs = 8000, slept = [500, 1000, 2000, 4000]\<rparr>)"
  using requestWithRetries_five_503
    [where net = "\<lambda>_. Resolved service_unavailable" and r = "\<lambda>_. service_unavailable"]
  by (simp add: service_unavailable_def)

text \<open>
  C3. When every call of \<open>fetch\<close> rejects, the executor calls it five times and throws
  what the fifth call rejected with, unchanged.
\<close>

theorem requestWithRetries_transport_failures:
  assumes "\<And>k. 1 \<le> k \<Longrightarrow> k \<le> 5 \<Longrightarrow> net k = Rejected (e k)"
  shows "requestWithRetries P net
           = (Inl (e 5), \<lparr>attempt = 5, backoffMs = 8000, slept = [500, 1000, 2000, 4000]\<rparr>)"
proof -
  have caught: "tryAttempt P (net k) s = Caught (e k)" if "1 \<le> k" "k \<le> 5" for k s
    using that assms [of k] by (simp add: tryAttempt_def)
  have "requestLoop P net \<lparr>attempt = 0, backoffMs = 500, slept = []\<rparr>
      = requestLoop P net \<lparr>attempt = 1, backoffMs = 1000, slept = [500]\<rparr>"
    by (subst requestLoop_Caught [where err = "e 1" and k = 1])
       (simp_all add: caught sleepAndDouble_def MAX_ATTEMPTS_def)
  also have "\<dots> = requestLoop P net \<lparr>attempt = 2, backoffMs = 2000, slept = [500, 1000]\<rparr>"
    by (subst requestLoop_Caught [where err = "e 2" and k = 2])
       (simp_all add: caught sleepAndDouble_def MAX_ATTEMPTS_def)
  also have "\<dots> = requestLoop P net \<lparr>attempt = 3, backoffMs = 4000, slept = [500, 1000, 2000]\<rparr>"
    by (subst requestLoop_Caught [where err = "e 3" and k = 3])
       (simp_all add: caught sleepAndDouble_def MAX_ATTEMPTS_def)
  also have "\<dots> = requestLoop P net
      \<lparr>attempt = 4, backoffMs = 8000, slept = [500, 1000, 2000, 4000]\<rparr>"
    by (subst requestLoop_Caught [where err = "e 4" and k = 4])
       (simp_all add: caught sleepAndDouble_def MAX_ATTEMPTS_def)
  also have "\<dots> = (Inl (e 5), \<lparr>attempt = 5, backoffMs = 8000, slept = [500, 1000, 2000, 4000]\<rparr>)"
    by (subst requestLoop_Caught [where err = "e 5" and k = 5])
       (simp_all add: caught MAX_ATTEMPTS_def)
  finally show ?thesis
    by (simp add: requestWithRetries_def)
qed

theorem requestWithRetries_transport_failures_witness:
  "\<forall>P. requestWithRetries P (\<lambda>k. Rejected (FetchRejected (''connection refused, call '' @ dec k)))
        = (Inl (FetchRejected ''connection refused, call 5''),
           \<lparr>attempt = 5, backoffMs = 8000, slept = [500, 1000, 2000, 4000]\<rparr>)"
  using requestWithRetries_transport_failures
    [where net = "\<lambda>k. Rejected (FetchRejected (''connection refused, call '' @ dec k))"
       and e = "\<lambda>k. FetchRejected (''connection refused, call '' @ dec k)"]
  by (simp add: dec.simps)

text \<open>
  A 429 with calls left whose \<open>Retry-After\<close> is not an integer: \<open>parseInteger\<close> throws
  inside the \<open>try\<close> block, the \<open>catch\<close> written for network errors takes the error, and
  the loop sleeps the backoff and goes on.
\<close>

lemma malformed_Retry_After_is_caught:
  assumes "net (attempt s + 1) = Resolved res" "status res = 429"
    and "attempt s + 1 < MAX_ATTEMPTS"
    and "header res ''Retry-After'' = Some ra" "ra \<noteq> []" "Number P ra = NonIntegral"
  shows "requestLoop P net s
           = requestLoop P net (sleepAndDouble (backoffMs s) (s\<lparr>attempt := attempt s + 1\<rparr>))"
  using assms
  by (subst requestLoop_Caught
        [where k = "attempt s + 1" and err = "Error (invalid_integer_message ''Retry-After'' ra)"])
     (simp_all add: tryAttempt_def parseInteger_def)

text \<open>
  C4. On a 429 with \<open>Retry-After: soon\<close> followed by a 200, no error comes out of the
  executor: it sleeps the backoff of 500 and returns the second response.
\<close>

theorem requestWithRetries_malformed_Retry_After:
  "requestWithRetries P
     ((\<lambda>_. Resolved success)(1 := Resolved (too_many_requests (Some ''soon''))))
   = (Inr success, \<lparr>attempt = 2, backoffMs = 1000, slept = [500]\<rparr>)"
proof -
  let ?net = "(\<lambda>_. Resolved success)(1 := Resolved (too_many_requests (Some ''soon'')))"
  have "requestLoop P ?net \<lparr>attempt = 0, backoffMs = 500, slept = []\<rparr>
      = requestLoop P ?net \<lparr>attempt = 1, backoffMs = 1000, slept = [500]\<rparr>"
    by (subst malformed_Retry_After_is_caught
          [where res = "too_many_requests (Some ''soon'')" and ra = "''soon''"])
       (simp_all add: too_many_requests_def MAX_ATTEMPTS_def Number_soon sleepAndDouble_def)
  also have "\<dots> = (Inr success, \<lparr>attempt = 2, backoffMs = 1000, slept = [500]\<rparr>)"
    by (subst requestLoop_Return [where res = success and k = 2])
       (simp_all add: tryAttempt_def success_def)
  finally show ?thesis
    by (simp add: requestWithRetries_def)
qed


lemma requestLoop_attempt_less: "attempt s < attempt (snd (requestLoop P net s))"
proof (induction P net s rule: requestLoop.induct)
  case (1 P net s)
  let ?s1 = "s\<lparr>attempt := attempt s + 1\<rparr>"
  show ?case
  proof (cases "tryAttempt P (net (attempt ?s1)) ?s1")
    case (Return res)
    then show ?thesis
      by (subst requestLoop.simps) (simp add: Let_def)
  next
    case (Retry w)
    with "1.IH"(1) [OF refl Retry] show ?thesis
      by (subst requestLoop.simps) (simp add: Let_def sleepAndDouble_def)
  next
    case (Caught err)
    show ?thesis
    proof (cases "MAX_ATTEMPTS \<le> attempt ?s1")
      case True
      with Caught show ?thesis
        by (subst requestLoop.simps) (simp add: Let_def)
    next
      case False
      with "1.IH"(2) [OF refl Caught] Caught show ?thesis
        by (subst requestLoop.simps) (simp add: Let_def sleepAndDouble_def)
    qed
  qed
qed

lemma requestWithRetries_calls: "1 \<le> attempt (snd (requestWithRetries P net))"
  using requestLoop_attempt_less [of "\<lparr>attempt = 0, backoffMs = 500, slept = []\<rparr>" P net]
  by (simp add: requestWithRetries_def)

lemma requestWithRetries_first_returned:
  assumes "net 1 = Resolved res" "status res \<noteq> 429" "status res < 500"
  shows "requestWithRetries P net = (Inr res, \<lparr>attempt = 1, backoffMs = 500, slept = []\<rparr>)"
  unfolding requestWithRetries_def using assms
  by (subst requestLoop_Return [where res = res and k = 1]) (simp_all add: tryAttempt_def)

section \<open>Properties of the URL builder\<close>

lemma split_slash_single: "CHR ''/'' \<notin> set a \<Longrightarrow> split_slash a = [a]"
  by (induction a) auto

lemma split_slash_append:
  "CHR ''/'' \<notin> set a \<Longrightarrow> split_slash (a @ CHR ''/'' # b) = a # split_slash b"
  by (induction a) auto

lemma name_char_no_slash: "name_char c \<Longrightarrow> c \<noteq> CHR ''/''"
  by (auto simp: name_char_def alnum_chars_def)

lemma name_char_plain: "name_char c \<Longrightarrow> plain_path_char c"
  by (auto simp: name_char_def plain_path_char_def)

lemma name_char_unreserved: "name_char c \<Longrightarrow> uri_unreserved c"
  by (auto simp: name_char_def uri_unreserved_def)

lemma encodeURIComponent_name: "list_all name_char s \<Longrightarrow> encodeURIComponent s = s"
  by (induction s) (simp_all add: encodeURIComponent_def encode_unit_def name_char_unreserved)

lemma names_no_slash: "list_all name_char s \<Longrightarrow> CHR ''/'' \<notin> set s"
  by (induction s) (auto dest: name_char_no_slash)

lemma plain_path_names:
  assumes "NAME_RE_test a" "NAME_RE_test b" "NAME_RE_test c"
  shows "plain_path (''/'' @ a @ ''/'' @ b @ ''/'' @ c)"
proof -
  from assms have chars: "list_all name_char a" "list_all name_char b" "list_all name_char c"
    and len: "3 \<le> length a" "3 \<le> length b" "3 \<le> length c"
    by (simp_all add: NAME_RE_test_def)
  have "split_slash (''/'' @ a @ ''/'' @ b @ ''/'' @ c) = [[], a, b, c]"
    using chars by (simp add: split_slash_append split_slash_single names_no_slash)
  moreover have "list_all plain_path_char (''/'' @ a @ ''/'' @ b @ ''/'' @ c)"
    using chars by (auto simp: list_all_iff name_char_plain) (simp add: plain_path_char_def)
  ultimately show ?thesis
    using len by (auto simp: plain_path_def)
qed

lemma URL_new_plain: "plain_path p \<Longrightarrow> URL_new P (BASE_URL @ p) = Inr (BASE_URL @ p)"
  by (simp add: URL_new_def BASE_URL_def)

lemma Operation_names_valid: "op \<in> set Operation_names \<Longrightarrow> NAME_RE_test op"
  by (auto simp: Operation_names_def NAME_RE_test_def name_char_def alnum_chars_def)

lemma NAME_my_org: "NAME_RE_test ''my-org''"
  by (simp add: NAME_RE_test_def name_char_def alnum_chars_def)

lemma NAME_build_api: "NAME_RE_test ''build-api''"
  by (simp add: NAME_RE_test_def name_char_def alnum_chars_def)

lemma buildUrl_names:
  assumes "NAME_RE_test op" "NAME_RE_test namespace" "NAME_RE_test key"
  shows "buildUrl P op namespace key initializer val =
           Inr (BASE_URL @ ''/'' @ op @ ''/'' @ namespace @ ''/'' @ key
                  @ (if op = ''create'' then
                       (case initializer of None \<Rightarrow> []
                        | Some n \<Rightarrow> ''?initializer='' @ formEncode (Number_toString P n))
                     else if op = ''set'' \<or> op = ''update'' then
                       (case val of None \<Rightarrow> []
                        | Some n \<Rightarrow> ''?value='' @ formEncode (Number_toString P n))
                     else []))"
proof -
  have enc: "encodeURIComponent namespace = namespace" "encodeURIComponent key = key"
    using assms(2,3) by (simp_all add: NAME_RE_test_def encodeURIComponent_name)
  have "URL_new P (BASE_URL @ ''/'' @ op @ ''/'' @ namespace @ ''/'' @ key)
          = Inr (BASE_URL @ ''/'' @ op @ ''/'' @ namespace @ ''/'' @ key)"
    using URL_new_plain [OF plain_path_names [OF assms]] by simp
  then show ?thesis
    by (auto simp: buildUrl_def Let_def enc normalizeBaseUrl_def BASE_URL_def split: option.splits)
qed

text \<open>
  C8. For each of the eight operations and every namespace and key that pass the pattern,
  \<open>buildUrl\<close> returns the base endpoint followed by \<open>/op/namespace/key\<close>, the two names as
  \<open>encodeURIComponent\<close> gives them (which leaves such names as they are); the query is
  \<open>initializer\<close> for \<open>create\<close> only, \<open>value\<close> for \<open>set\<close> and \<open>update\<close> only, each only when
  the parameter is given; a \<open>hit\<close> URL has no query. \<open>buildUrl\<close> is a function of its
  arguments, so equal inputs give equal strings.
\<close>

theorem buildUrl_valid:
  assumes "op \<in> set Operation_names" "NAME_RE_test namespace" "NAME_RE_test key"
  shows "buildUrl P op namespace key initializer val =
           Inr (BASE_URL @ ''/'' @ op @ ''/'' @ encodeURIComponent namespace
                  @ ''/'' @ encodeURIComponent key
                  @ (if op = ''create'' then
                       (case initializer of None \<Rightarrow> []
                        | Some n \<Rightarrow> ''?initializer='' @ formEncode (Number_toString P n))
                     else if op = ''set'' \<or> op = ''update'' then
                       (case val of None \<Rightarrow> []
                        | Some n \<Rightarrow> ''?value='' @ formEncode (Number_toString P n))
                     else []))
         \<and> encodeURIComponent namespace = namespace \<and> encodeURIComponent key = key
         \<and> buildUrl P ''hit'' namespace key initializer val
             = Inr (BASE_URL @ ''/hit/'' @ namespace @ ''/'' @ key)"
proof -
  have enc: "encodeURIComponent namespace = namespace" "encodeURIComponent key = key"
    using assms(2,3) by (simp_all add: NAME_RE_test_def encodeURIComponent_name)
  have hit: "NAME_RE_test ''hit''"
    by (simp add: NAME_RE_test_def name_char_def alnum_chars_def)
  show ?thesis
    using buildUrl_names [OF Operation_names_valid [OF assms(1)] assms(2,3), of P initializer val]
      buildUrl_names [OF hit assms(2,3), of P initializer val]
    by (simp add: enc)
qed

theorem buildUrl_valid_witness:
  "\<forall>P. buildUrl P ''create'' ''my-org'' ''build-api'' (Some 5) None
          = Inr ''https://abacus.jasoncameron.dev/create/my-org/build-api?initializer=5''
       \<and> buildUrl P ''hit'' ''my-org'' ''build-api'' (Some 5) None
          = Inr ''https://abacus.jasoncameron.dev/hit/my-org/build-api''"
  using buildUrl_valid [where op = "''create''" and namespace = "''my-org''" and key = "''build-api''"
      and initializer = "Some 5" and val = None]
  by (simp add: Operation_names_def NAME_my_org NAME_build_api BASE_URL_def
      Number_toString_def dec.simps formEncode_def form_unit_def alnum_chars_def)

section \<open>Properties of the redacting logger\<close>

lemma masked_mask_fields: "masked secret (mask_fields secret v)"
  by (induction secret v rule: mask_fields.induct) (auto simp: list_all_iff)

lemma digit_nth: "n < 10 \<Longrightarrow> is_digit (''0123456789'' ! n)"
proof -
  assume "n < 10"
  then have "n \<in> {0, 1, 2, 3, 4, 5, 6, 7, 8, 9}"
    by auto
  then show ?thesis
    by (auto simp: is_digit_def)
qed

lemma dec_digits_only: "list_all is_digit (dec n)"
proof (induction n rule: dec.induct)
  case (1 n)
  show ?case
  proof (cases "n < 10")
    case True
    then show ?thesis
      by (subst dec.simps) (simp add: digit_nth)
  next
    case False
    with 1 show ?thesis
      by (subst dec.simps) (simp add: digit_nth)
  qed
qed

lemma dec_nonempty: "dec n \<noteq> []"
  by (subst dec.simps) simp

lemma dec_not_redactKey: "dec n \<notin> set redactKeys"
  using dec_digits_only [of n] dec_nonempty [of n]
  by (cases "dec n") (auto simp: redactKeys_def is_digit_def)

lemma enumerate_map_snd:
  "enumerate n (map f xs) = map (\<lambda>(i, x). (i, f x)) (enumerate n xs)"
  by (induction xs arbitrary: n) auto

text \<open>
  Serialising with the replacer is serialising, without one, the value in which the
  fields with these names are masked; the array indices must not be among the names.
\<close>

lemma SerializeJSONProperty_mask_fields:
  assumes "\<And>i. dec i \<notin> set keys"
  shows "SerializeJSONProperty P keys ind k v =
     (if k \<in> set keys then QuoteJSONString mask_token
      else SerializeJSONProperty P [] ind k (mask_fields (\<lambda>k. k \<in> set keys) v))"
proof (induction v arbitrary: ind k)
  case (JArr xs)
  show ?case
  proof (cases "k \<in> set keys")
    case True
    then show ?thesis
      by (subst SerializeJSONProperty.simps) (simp add: replacer_def)
  next
    case False
    have "map (\<lambda>(i, x). SerializeJSONProperty P keys (ind @ ''  '') (dec i) x) (enumerate 0 xs)
        = map (\<lambda>(i, x). SerializeJSONProperty P [] (ind @ ''  '') (dec i) x)
            (enumerate 0 (map (mask_fields (\<lambda>k. k \<in> set keys)) xs))"
      using JArr.IH assms by (auto simp: enumerate_map_snd in_set_enumerate_eq)
    with False show ?thesis
      by (subst SerializeJSONProperty.simps, subst (2) SerializeJSONProperty.simps)
         (simp add: replacer_def)
  qed
next
  case (JObj fs)
  show ?case
  proof (cases "k \<in> set keys")
    case True
    then show ?thesis
      by (subst SerializeJSONProperty.simps) (simp add: replacer_def)
  next
    case False
    have "map (\<lambda>(name, x). QuoteJSONString name @ CHR '':'' # CHR '' '' #
                 SerializeJSONProperty P keys (ind @ ''  '') name x) fs
        = map (\<lambda>(name, x). QuoteJSONString name @ CHR '':'' # CHR '' '' #
                 SerializeJSONProperty P [] (ind @ ''  '') name x)
            (map (\<lambda>(k, x). (k, if k \<in> set keys then JStr mask_token
                                 else mask_fields (\<lambda>k. k \<in> set keys) x)) fs)"
    proof -
      have "SerializeJSONProperty P keys (ind @ ''  '') name x
          = SerializeJSONProperty P [] (ind @ ''  '') name
              (if name \<in> set keys then JStr mask_token else mask_fields (\<lambda>k. k \<in> set keys) x)"
        if "(name, x) \<in> set fs" for name x
      proof (cases "name \<in> set keys")
        case True
        then show ?thesis
          by (subst SerializeJSONProperty.simps, subst (2) SerializeJSONProperty.simps)
             (simp add: replacer_def)
      next
        case False
        with JObj.IH [of "(name, x)" x] that show ?thesis
          by simp
      qed
      then show ?thesis
        by auto
    qed
    note members = this
    from False show ?thesis
      by (subst SerializeJSONProperty.simps, subst (2) SerializeJSONProperty.simps)
         (simp add: replacer_def members del: map_map)
  qed
qed (subst SerializeJSONProperty.simps, subst (2) SerializeJSONProperty.simps,
     simp add: replacer_def)+

lemma sanitizeForLogs_refines:
  assumes "\<And>s. input \<noteq> JStr s"
  shows "sanitizeForLogs P input
     = truncate_str (JSON_stringify P [] (mask_fields (\<lambda>k. k \<in> set redactKeys) input))
         MAX_LOG_BODY_CHARS"
proof -
  have "[] \<notin> set redactKeys"
    by (simp add: redactKeys_def)
  then have "JSON_stringify P redactKeys input
      = JSON_stringify P [] (mask_fields (\<lambda>k. k \<in> set redactKeys) input)"
    unfolding JSON_stringify_def
    by (subst SerializeJSONProperty_mask_fields) (simp_all add: dec_not_redactKey)
  then show ?thesis
  proof (cases input)
    case (JStr s)
    with assms show ?thesis
      by blast
  qed (simp_all add: sanitizeForLogs_def)
qed

lemma sanitizeForLogs_example:
  "sanitizeForLogs P (JObj [(''admin_key'', JStr ''abc123''), (''value'', JNum 7)])
     = ''{'' @ [CHR 0x0A] @ ''  \"admin_key\": \"***\",'' @ [CHR 0x0A] @ ''  \"value\": 7''
         @ [CHR 0x0A] @ ''}''"
  by (simp add: sanitizeForLogs_def JSON_stringify_def SerializeJSONProperty.simps replacer_def
      redactKeys_def mask_token_def QuoteJSONString_def quote_unit_def Number_toString_def
      dec.simps truncate_str_def MAX_LOG_BODY_CHARS_def)

lemma example_output_has_no_secret:
  "\<not> sublist ''abc123'' (''{'' @ [CHR 0x0A] @ ''  \"admin_key\": \"***\",'' @ [CHR 0x0A]
         @ ''  \"value\": 7'' @ [CHR 0x0A] @ ''}'')"
  by code_simp

lemma example_output_has_mask:
  "sublist mask_token (''{'' @ [CHR 0x0A] @ ''  \"admin_key\": \"***\",'' @ [CHR 0x0A]
         @ ''  \"value\": 7'' @ [CHR 0x0A] @ ''}'')"
  unfolding mask_token_def by code_simp

text \<open>
  C5, as the code has it. The logger masks the fields named exactly \<open>admin_key\<close>,
  \<open>authorization\<close> or \<open>Authorization\<close>, at every depth: what it prints for a value that is
  not a string is the serialisation, cut at 2000 characters, of the value with these fields
  replaced by \<open>"***"\<close>. Logging \<open>{admin_key: "abc123", value: 7}\<close> prints a text that holds
  the mask and does not hold \<open>abc123\<close>.
\<close>

theorem sanitizeForLogs_masks_listed_names:
  assumes "\<And>s. input \<noteq> JStr s"
  shows "sanitizeForLogs P input
           = truncate_str (JSON_stringify P [] (mask_fields (\<lambda>k. k \<in> set redactKeys) input))
               MAX_LOG_BODY_CHARS
       \<and> masked (\<lambda>k. k \<in> set redactKeys) (mask_fields (\<lambda>k. k \<in> set redactKeys) input)
       \<and> \<not> sublist ''abc123''
             (sanitizeForLogs P (JObj [(''admin_key'', JStr ''abc123''), (''value'', JNum 7)]))
       \<and> sublist mask_token
             (sanitizeForLogs P (JObj [(''admin_key'', JStr ''abc123''), (''value'', JNum 7)]))"
  using sanitizeForLogs_refines [OF assms] masked_mask_fields
    example_output_has_no_secret example_output_has_mask
  by (simp only: sanitizeForLogs_example simp_thms)

theorem sanitizeForLogs_masks_listed_names_witness:
  "\<forall>P. sanitizeForLogs P
          (JObj [(''request'', JObj [(''Authorization'', JStr ''Bearer abc123'')]),
                 (''tries'', JArr [JNum 1, JNum 2])])
        = truncate_str
            (JSON_stringify P []
               (JObj [(''request'', JObj [(''Authorization'', JStr ''***'')]),
                      (''tries'', JArr [JNum 1, JNum 2])]))
            MAX_LOG_BODY_CHARS"
  using sanitizeForLogs_masks_listed_names
    [where input = "JObj [(''request'', JObj [(''Authorization'', JStr ''Bearer abc123'')]),
                          (''tries'', JArr [JNum 1, JNum 2])]"]
  by (simp add: redactKeys_def mask_token_def)

text \<open>
  C5, as stated, fails: the name \<open>ADMIN_KEY\<close> matches \<open>admin_key\<close> when case is ignored, and
  the logger prints its value.
\<close>

theorem sanitizeForLogs_case_variant_not_masked:
  "credential_like ''ADMIN_KEY''
   \<and> sanitizeForLogs fallback_platform (JObj [(''ADMIN_KEY'', JStr ''abc123'')])
       = ''{'' @ [CHR 0x0A] @ ''  \"ADMIN_KEY\": \"abc123\"'' @ [CHR 0x0A] @ ''}''"
  by (simp add: credential_like_def ascii_lower_def sanitizeForLogs_def JSON_stringify_def
      SerializeJSONProperty.simps replacer_def redactKeys_def QuoteJSONString_def quote_unit_def
      truncate_str_def MAX_LOG_BODY_CHARS_def)

section \<open>Properties of the response interpreter\<close>

lemma interpretResponse_error_payload:
  assumes "body_text res = Inr raw" "raw \<noteq> []" "JSON_parse P raw = None"
  shows "readJsonSafely P res = Inr (raw, JObj [(''error'', JStr raw)])"
    and "ok res \<Longrightarrow> interpretResponse P operation res fx = (Inr (), fx)"
    and "\<not> ok res \<Longrightarrow> interpretResponse P operation res fx
           = (Inl (Error (raw @ '' (operation='' @ operation @ '')'')), fx)"
  using assms
  by (simp_all add: readJsonSafely_def interpretResponse_def setOutputs.simps prop_of_def)

lemma interpretResponse_empty_body:
  assumes "body_text res = Inr []"
  shows "readJsonSafely P res = Inr ([], JObj [])"
    and "ok res \<Longrightarrow> interpretResponse P operation res fx = (Inr (), fx)"
  using assms
  by (simp_all add: readJsonSafely_def interpretResponse_def setOutputs.simps prop_of_def)

lemma JSON_parse_html: "JSON_parse P ''<html>'' = None"
  by (simp add: JSON_parse_def json_space_def)

text \<open>
  C7. When the body of a response cannot be parsed and is not empty, \<open>readJsonSafely\<close>
  gives the payload \<open>{error: body}\<close>; whether the call succeeds depends on \<open>res.ok\<close> alone:
  with a 2xx status \<open>run\<close> ends without a throw (and sets no output), with any other status
  it throws with the body as the message. An empty body gives the payload \<open>{}\<close>.
\<close>

theorem interpretResponse_unparseable_body:
  "(body_text res = Inr raw \<and> raw \<noteq> [] \<and> JSON_parse P raw = None \<longrightarrow>
      readJsonSafely P res = Inr (raw, JObj [(''error'', JStr raw)])
      \<and> (ok res \<longrightarrow> interpretResponse P operation res fx = (Inr (), fx))
      \<and> (\<not> ok res \<longrightarrow> interpretResponse P operation res fx
            = (Inl (Error (raw @ '' (operation='' @ operation @ '')'')), fx)))
   \<and> (body_text res = Inr [] \<longrightarrow>
      readJsonSafely P res = Inr ([], JObj [])
      \<and> (ok res \<longrightarrow> interpretResponse P operation res fx = (Inr (), fx)))"
proof (intro conjI impI)
  assume a: "body_text res = Inr raw \<and> raw \<noteq> [] \<and> JSON_parse P raw = None"
  then show "readJsonSafely P res = Inr (raw, JObj [(''error'', JStr raw)])"
    by (simp add: interpretResponse_error_payload)
  show "interpretResponse P operation res fx = (Inr (), fx)" if "ok res"
    using a that by (simp add: interpretResponse_error_payload)
  show "interpretResponse P operation res fx
      = (Inl (Error (raw @ '' (operation='' @ operation @ '')'')), fx)" if "\<not> ok res"
    using a that by (simp add: interpretResponse_error_payload)
next
  assume a: "body_text res = Inr []"
  then show "readJsonSafely P res = Inr ([], JObj [])"
    by (simp add: interpretResponse_empty_body)
  show "interpretResponse P operation res fx = (Inr (), fx)" if "ok res"
    using a that by (simp add: interpretResponse_empty_body)
qed

theorem interpretResponse_unparseable_body_witness:
  "\<forall>P operation fx.
     readJsonSafely P success_html = Inr (''<html>'', JObj [(''error'', JStr ''<html>'')])
     \<and> interpretResponse P operation success_html fx = (Inr (), fx)
     \<and> interpretResponse P operation (success_html\<lparr>status := 502\<rparr>) fx
         = (Inl (Error (''<html> (operation='' @ operation @ '')'')), fx)
     \<and> readJsonSafely P success = Inr ([], JObj [])
     \<and> interpretResponse P operation success fx = (Inr (), fx)"
proof (intro allI)
  fix P operation fx
  show "readJsonSafely P success_html = Inr (''<html>'', JObj [(''error'', JStr ''<html>'')])
     \<and> interpretResponse P operation success_html fx = (Inr (), fx)
     \<and> interpretResponse P operation (success_html\<lparr>status := 502\<rparr>) fx
         = (Inl (Error (''<html> (operation='' @ operation @ '')'')), fx)
     \<and> readJsonSafely P success = Inr ([], JObj [])
     \<and> interpretResponse P operation success fx = (Inr (), fx)"
    using interpretResponse_unparseable_body
        [where res = success_html and raw = "''<html>''" and P = P and operation = operation
           and fx = fx]
      interpretResponse_unparseable_body
        [where res = "success_html\<lparr>status := 502\<rparr>" and raw = "''<html>''" and P = P
           and operation = operation and fx = fx]
      interpretResponse_unparseable_body
        [where res = success and raw = "''<html>''" and P = P and operation = operation
           and fx = fx]
    by (simp add: success_html_def success_def JSON_parse_html ok_def)
qed

section \<open>Properties of the action\<close>

lemma fetches_setOutputs: "fetches (snd (setOutputs P payload names fx)) = fetches fx"
  by (induction P payload names fx rule: setOutputs.induct)
     (simp_all add: setOutputs.simps split: option.splits sum.splits)

lemma fetches_interpretResponse:
  "fetches (snd (interpretResponse P operation res fx)) = fetches fx"
proof (cases "readJsonSafely P res")
  case (Inl err)
  then show ?thesis
    by (simp add: interpretResponse_def)
next
  case (Inr rp)
  obtain rawText payload where rp: "rp = (rawText, payload)"
    by (cases rp)
  obtain r1 fx1 where s1: "setOutputs P payload [''value''] fx = (r1, fx1)"
    by (cases "setOutputs P payload [''value''] fx")
  have f1: "fetches fx1 = fetches fx"
    using fetches_setOutputs [of P payload "[''value'']" fx] s1 by simp
  obtain r2 fx2 where s2:
    "setOutputs P payload [''namespace'', ''key'', ''admin_key''] fx1 = (r2, fx2)"
    by (cases "setOutputs P payload [''namespace'', ''key'', ''admin_key''] fx1")
  have f2: "fetches fx2 = fetches fx"
    using fetches_setOutputs [of P payload "[''namespace'', ''key'', ''admin_key'']" fx1] s2 f1
    by simp
  show ?thesis
  proof (cases "\<not> ok res \<or> payload = JNull")
    case True
    with Inr rp show ?thesis
      by (auto simp: interpretResponse_def)
  next
    case False
    show ?thesis
    proof (cases r1)
      case (Inl err)
      with False Inr rp s1 f1 show ?thesis
        by (simp add: interpretResponse_def)
    next
      case r1: (Inr u)
      show ?thesis
      proof (cases "operation = ''create''")
        case True
        with False Inr rp s1 r1 s2 f2 show ?thesis
          by (cases r2) (simp_all add: interpretResponse_def split: option.splits json.splits)
      next
        case False
        with \<open>\<not> (\<not> ok res \<or> payload = JNull)\<close> Inr rp s1 r1 f1 show ?thesis
          by (simp add: interpretResponse_def fetches_setOutputs)
      qed
    qed
  qed
qed

text \<open>Once \<open>run\<close> reaches the executor, \<open>fetch\<close> is called at least once, with that request.\<close>

lemma fetches_dispatch:
  "\<exists>n\<ge>1. fetches (snd (dispatch P server operation req fx)) = replicate n req"
proof -
  obtain r st where rs: "requestWithRetries P (server req) = (r, st)"
    by (cases "requestWithRetries P (server req)")
  with requestWithRetries_calls [of P "server req"] have "1 \<le> attempt st"
    by simp
  with rs show ?thesis
    by (cases r) (auto simp: dispatch_def fetches_interpretResponse)
qed

lemma js_trim_name:
  assumes "list_all name_char v" "v \<noteq> []"
  shows "js_trim v \<noteq> []"
proof -
  from assms obtain c cs where v: "v = c # cs" and c: "name_char c"
    by (cases v) auto
  from c have ns: "\<not> js_space c"
    by (auto simp: name_char_def js_space_def alnum_chars_def)
  then have "dropWhile js_space v = v"
    by (simp add: v)
  moreover have "dropWhile js_space (rev v) \<noteq> []"
    using ns by (auto simp: v dropWhile_eq_Nil_conv)
  ultimately show ?thesis
    by (simp add: js_trim_def)
qed

lemma requireNonEmpty_name:
  assumes "NAME_RE_test v"
  shows "requireNonEmpty name v = Inr ()"
proof -
  from assms have "v \<noteq> []" and "list_all name_char v"
    by (auto simp: NAME_RE_test_def)
  with js_trim_name [of v] show ?thesis
    by (simp add: requireNonEmpty_def)
qed

lemma checkNames_valid:
  "NAME_RE_test namespace \<Longrightarrow> NAME_RE_test key \<Longrightarrow> checkNames namespace key = Inr ()"
  by (simp add: checkNames_def and_then_def requireNonEmpty_name validateName_def)

lemma checkNames_Inr:
  "checkNames namespace key = Inr u \<Longrightarrow> NAME_RE_test namespace \<and> NAME_RE_test key"
  by (auto simp: checkNames_def and_then_def validateName_def split: sum.splits if_splits)

lemma Number_0: "Number P ''0'' = Integral 0"
  by (simp add: Number_def dec_digits_def is_digit_def digits_val_def digit_val_def)

lemma Number_1000: "Number P ''1000'' = Integral 1000"
  by (simp add: Number_def dec_digits_def is_digit_def digits_val_def digit_val_def)

text \<open>
  C9. \<open>fetch\<close> is called only after every check of \<open>run\<close> has passed: namespace and key
  match the pattern, an administrative operation has an \<open>admin_key\<close> that is not blank,
  \<open>set\<close> and \<open>update\<close> have a \<open>value\<close> that is not blank and parses as an integer, and
  \<open>create\<close> has an initializer that parses as an integer.
\<close>

theorem run_fetch_only_after_validation:
  assumes "fetches (snd (run P server inp)) \<noteq> []"
  shows "NAME_RE_test (namespace_in inp) \<and> NAME_RE_test (key_in inp)
    \<and> (isAdminOp (operationOf inp) \<longrightarrow>
         admin_key_in inp \<noteq> [] \<and> js_trim (admin_key_in inp) \<noteq> [])
    \<and> (operationOf inp = ''set'' \<or> operationOf inp = ''update'' \<longrightarrow>
         js_trim (value_in inp) \<noteq> [] \<and> (\<exists>n. Number P (value_in inp) = Integral n))
    \<and> (operationOf inp = ''create'' \<longrightarrow>
         (\<exists>n. Number P (if initializer_in inp = [] then ''0'' else initializer_in inp)
                = Integral n))"
proof -
  let ?op = "operationOf inp"
  let ?raw = "if initializer_in inp = [] then ''0'' else initializer_in inp"
  from assms obtain u where names: "checkNames (namespace_in inp) (key_in inp) = Inr ()"
    and admin: "(if isAdminOp ?op then requireNonEmpty ''admin_key'' (admin_key_in inp)
                 else Inr ()) = Inr ()"
    and params: "and_then (parseParameters P ?op ?raw (value_in inp))
                   (\<lambda>(initializer, val).
                      buildUrl P ?op (namespace_in inp) (key_in inp) initializer val) = Inr u"
    by (auto simp: run_def Let_def no_effects_def split: sum.splits)
  from params obtain i v where pp: "parseParameters P ?op ?raw (value_in inp) = Inr (i, v)"
    by (auto simp: and_then_def split: sum.splits)
  have "NAME_RE_test (namespace_in inp) \<and> NAME_RE_test (key_in inp)"
    using checkNames_Inr [OF names] .
  moreover have "isAdminOp ?op \<longrightarrow> admin_key_in inp \<noteq> [] \<and> js_trim (admin_key_in inp) \<noteq> []"
    using admin by (auto simp: requireNonEmpty_def split: if_splits)
  moreover have "?op = ''set'' \<or> ?op = ''update'' \<longrightarrow>
      js_trim (value_in inp) \<noteq> [] \<and> (\<exists>n. Number P (value_in inp) = Integral n)"
    using pp
    by (auto simp: parseParameters_def and_then_def parseInteger_def
        split: if_splits sum.splits number.splits)
  moreover have "?op = ''create'' \<longrightarrow> (\<exists>n. Number P ?raw = Integral n)"
    using pp
    by (auto simp: parseParameters_def and_then_def parseInteger_def
        split: if_splits sum.splits number.splits)
  ultimately show ?thesis
    by blast
qed

lemma run_set_inputs:
  "run P (\<lambda>_ _. Resolved success) set_inputs =
     (Inr (),
      \<lparr>fetches = [\<lparr>url = ''https://abacus.jasoncameron.dev/set/my-org/build-api?value=1000'',
                    http_method = POST,
                    headers = [(''Accept'', ''application/json''),
                               (''Authorization'', ''Bearer s3cret'')]\<rparr>],
       sleeps = [], secrets = [''s3cret''], outputs = []\<rparr>)"
proof -
  have "NAME_RE_test ''set''"
    by (simp add: NAME_RE_test_def name_char_def alnum_chars_def)
  from buildUrl_names [OF this NAME_my_org NAME_build_api, of P None "Some 1000"]
  have url: "buildUrl P ''set'' ''my-org'' ''build-api'' None (Some 1000)
      = Inr ''https://abacus.jasoncameron.dev/set/my-org/build-api?value=1000''"
    by (simp add: BASE_URL_def Number_toString_def dec.simps formEncode_def form_unit_def
        alnum_chars_def)
  have req: "requestWithRetries P (\<lambda>_. Resolved success)
      = (Inr success, \<lparr>attempt = 1, backoffMs = 500, slept = []\<rparr>)"
    by (rule requestWithRetries_first_returned) (simp_all add: success_def)
  have resp: "interpretResponse P ''set'' success fx = (Inr (), fx)" for fx
    by (rule interpretResponse_empty_body) (simp_all add: success_def ok_def)
  show ?thesis
    by (simp add: run_def Let_def set_inputs_def operationOf_def checkNames_valid NAME_my_org
        NAME_build_api isAdminOp_def requireNonEmpty_def js_trim_def js_space_def
        parseParameters_def and_then_def parseInteger_def Number_1000 url dispatch_def req resp
        methodFor_def headersFor_def no_effects_def)
qed

theorem run_fetch_only_after_validation_witness:
  "\<forall>P. fetches (snd (run P (\<lambda>_ _. Resolved success) set_inputs)) \<noteq> []
     \<and> NAME_RE_test (namespace_in set_inputs) \<and> NAME_RE_test (key_in set_inputs)
     \<and> isAdminOp (operationOf set_inputs) \<and> js_trim (admin_key_in set_inputs) = ''s3cret''
     \<and> operationOf set_inputs = ''set'' \<and> js_trim (value_in set_inputs) = ''1000''
     \<and> Number P (value_in set_inputs) = Integral 1000"
  using run_fetch_only_after_validation [where server = "\<lambda>_ _. Resolved success" and inp = set_inputs]
  by (simp add: run_set_inputs)
     (simp add: set_inputs_def operationOf_def isAdminOp_def js_trim_def js_space_def
        NAME_my_org NAME_build_api Number_1000)

lemma parseParameters_plain:
  "op \<noteq> ''create'' \<Longrightarrow> op \<noteq> ''set'' \<Longrightarrow> op \<noteq> ''update'' \<Longrightarrow>
   parseParameters P op i v = Inr (None, None)"
  by (simp add: parseParameters_def and_then_def)

lemma buildUrl_bump:
  "buildUrl P ''bump'' ''my-org'' ''build-api'' None None
     = Inr ''https://abacus.jasoncameron.dev/bump/my-org/build-api''"
proof -
  have "NAME_RE_test ''bump''"
    by (simp add: NAME_RE_test_def name_char_def alnum_chars_def)
  from buildUrl_names [OF this NAME_my_org NAME_build_api, of P None None] show ?thesis
    by (simp add: BASE_URL_def)
qed

lemma URL_new_origin_slash:
  "URL_new P (BASE_URL @ CHR ''/'' # rest)
     = Inr (if plain_path (CHR ''/'' # rest) then BASE_URL @ CHR ''/'' # rest
            else URL_path_rest P (BASE_URL @ CHR ''/'' # rest))"
  by (simp add: URL_new_def BASE_URL_def)

lemma buildUrl_no_parameters:
  "buildUrl P op namespace key None None
     = Inr (if plain_path (''/'' @ op @ ''/'' @ encodeURIComponent namespace
                             @ ''/'' @ encodeURIComponent key)
            then BASE_URL @ ''/'' @ op @ ''/'' @ encodeURIComponent namespace
                   @ ''/'' @ encodeURIComponent key
            else URL_path_rest P
                   (BASE_URL @ ''/'' @ op @ ''/'' @ encodeURIComponent namespace
                      @ ''/'' @ encodeURIComponent key))"
proof -
  have "normalizeBaseUrl BASE_URL = BASE_URL"
    by (simp add: normalizeBaseUrl_def BASE_URL_def)
  then show ?thesis
    using URL_new_origin_slash
      [of P "op @ ''/'' @ encodeURIComponent namespace @ ''/'' @ encodeURIComponent key"]
    by (simp add: buildUrl_def Let_def)
qed

text \<open>
  C6, as the code has it. \<open>run\<close> does not check the operation name. A name outside the
  enumeration (the empty input stands for \<open>hit\<close>) is handled as an operation that is not
  administrative and takes no parameter: with a valid namespace and key, whatever the name
  is, \<open>fetch\<close> is called, at least once and each time with the same \<open>GET\<close> request, which
  has the \<open>Accept\<close> header only; its URL is what \<open>new URL\<close> makes of
  \<open>base/name/namespace/key\<close>, which is that string itself when it is a plain path (as it is
  for a name of letters, digits and \<open>_.-\<close>, three to 64 of them).
\<close>

theorem run_unrecognized_operation_dispatched:
  assumes "operation_in inp \<notin> set Operation_names" "operation_in inp \<noteq> []"
    and "NAME_RE_test (namespace_in inp)" "NAME_RE_test (key_in inp)"
  shows "(\<exists>n\<ge>1. fetches (snd (run P server inp))
           = replicate n
               \<lparr>url = (if plain_path (''/'' @ operation_in inp @ ''/'' @ namespace_in inp
                                          @ ''/'' @ key_in inp)
                        then BASE_URL @ ''/'' @ operation_in inp @ ''/'' @ namespace_in inp
                               @ ''/'' @ key_in inp
                        else URL_path_rest P
                               (BASE_URL @ ''/'' @ operation_in inp @ ''/'' @ namespace_in inp
                                  @ ''/'' @ key_in inp)),
                http_method = GET, headers = [(''Accept'', ''application/json'')]\<rparr>)
       \<and> (NAME_RE_test (operation_in inp) \<longrightarrow>
            plain_path (''/'' @ operation_in inp @ ''/'' @ namespace_in inp
                          @ ''/'' @ key_in inp))"
proof -
  let ?op = "operation_in inp"
  let ?u = "if plain_path (''/'' @ ?op @ ''/'' @ namespace_in inp @ ''/'' @ key_in inp)
            then BASE_URL @ ''/'' @ ?op @ ''/'' @ namespace_in inp @ ''/'' @ key_in inp
            else URL_path_rest P
                   (BASE_URL @ ''/'' @ ?op @ ''/'' @ namespace_in inp @ ''/'' @ key_in inp)"
  from assms(1)
  have op: "?op \<noteq> ''create''" "?op \<noteq> ''set''" "?op \<noteq> ''update''" "\<not> isAdminOp ?op"
    by (auto simp: Operation_names_def isAdminOp_def)
  have enc: "encodeURIComponent (namespace_in inp) = namespace_in inp"
    "encodeURIComponent (key_in inp) = key_in inp"
    using assms(3,4) by (simp_all add: NAME_RE_test_def encodeURIComponent_name)
  have url: "buildUrl P ?op (namespace_in inp) (key_in inp) None None = Inr ?u"
    using buildUrl_no_parameters [of P ?op "namespace_in inp" "key_in inp"]
    by (simp only: enc)
  have "run P server inp
      = dispatch P server ?op
          \<lparr>url = ?u, http_method = GET, headers = [(''Accept'', ''application/json'')]\<rparr>
          no_effects"
    using assms(2) op
    by (simp add: run_def Let_def operationOf_def checkNames_valid [OF assms(3,4)]
        parseParameters_plain and_then_def url methodFor_def headersFor_def no_effects_def
        split del: if_split)
  then have "\<exists>n\<ge>1. fetches (snd (run P server inp))
      = replicate n \<lparr>url = ?u, http_method = GET,
                      headers = [(''Accept'', ''application/json'')]\<rparr>"
    using fetches_dispatch by simp
  moreover have "NAME_RE_test ?op \<longrightarrow>
      plain_path (''/'' @ ?op @ ''/'' @ namespace_in inp @ ''/'' @ key_in inp)"
    using plain_path_names [OF _ assms(3,4)] by blast
  ultimately show ?thesis
    by blast
qed

lemma not_plain_path_spaced: "\<not> plain_path ''/a b/my-org/build-api''"
proof
  assume "plain_path ''/a b/my-org/build-api''"
  then have "list_all plain_path_char ''/a b/my-org/build-api''"
    by (simp only: plain_path_def)
  then have "plain_path_char (CHR '' '')"
    by (simp add: list_all_iff)
  then show False
    by (simp add: plain_path_char_def alnum_chars_def)
qed

lemma plain_path_bump: "plain_path ''/bump/my-org/build-api''"
proof -
  have "NAME_RE_test ''bump''"
    by (simp add: NAME_RE_test_def name_char_def alnum_chars_def)
  from plain_path_names [OF this NAME_my_org NAME_build_api] show ?thesis
    by simp
qed

theorem run_unrecognized_operation_dispatched_witness:
  "\<forall>P server.
     (\<exists>n\<ge>1. fetches (snd (run P server bump_inputs))
        = replicate n \<lparr>url = ''https://abacus.jasoncameron.dev/bump/my-org/build-api'',
                        http_method = GET, headers = [(''Accept'', ''application/json'')]\<rparr>)
     \<and> (\<exists>n\<ge>1. fetches (snd (run P server spaced_inputs))
        = replicate n
            \<lparr>url = URL_path_rest P ''https://abacus.jasoncameron.dev/a b/my-org/build-api'',
             http_method = GET, headers = [(''Accept'', ''application/json'')]\<rparr>)"
proof (intro allI conjI)
  fix P server
  have "\<exists>n\<ge>1. fetches (snd (run P server bump_inputs))
      = replicate n
          \<lparr>url = (if plain_path (''/'' @ operation_in bump_inputs @ ''/''
                                   @ namespace_in bump_inputs @ ''/'' @ key_in bump_inputs)
                   then BASE_URL @ ''/'' @ operation_in bump_inputs @ ''/''
                          @ namespace_in bump_inputs @ ''/'' @ key_in bump_inputs
                   else URL_path_rest P
                          (BASE_URL @ ''/'' @ operation_in bump_inputs @ ''/''
                             @ namespace_in bump_inputs @ ''/'' @ key_in bump_inputs)),
           http_method = GET, headers = [(''Accept'', ''application/json'')]\<rparr>"
    by (rule run_unrecognized_operation_dispatched [THEN conjunct1])
       (simp_all add: bump_inputs_def Operation_names_def NAME_my_org NAME_build_api)
  then show "\<exists>n\<ge>1. fetches (snd (run P server bump_inputs))
      = replicate n \<lparr>url = ''https://abacus.jasoncameron.dev/bump/my-org/build-api'',
                      http_method = GET, headers = [(''Accept'', ''application/json'')]\<rparr>"
    using plain_path_bump by (simp add: bump_inputs_def BASE_URL_def)
  have "\<exists>n\<ge>1. fetches (snd (run P server spaced_inputs))
      = replicate n
          \<lparr>url = (if plain_path (''/'' @ operation_in spaced_inputs @ ''/''
                                   @ namespace_in spaced_inputs @ ''/'' @ key_in spaced_inputs)
                   then BASE_URL @ ''/'' @ operation_in spaced_inputs @ ''/''
                          @ namespace_in spaced_inputs @ ''/'' @ key_in spaced_inputs
                   else URL_path_rest P
                          (BASE_URL @ ''/'' @ operation_in spaced_inputs @ ''/''
                             @ namespace_in spaced_inputs @ ''/'' @ key_in spaced_inputs)),
           http_method = GET, headers = [(''Accept'', ''application/json'')]\<rparr>"
    by (rule run_unrecognized_operation_dispatched [THEN conjunct1])
       (simp_all add: spaced_inputs_def Operation_names_def NAME_my_org NAME_build_api)
  then show "\<exists>n\<ge>1. fetches (snd (run P server spaced_inputs))
      = replicate n
          \<lparr>url = URL_path_rest P ''https://abacus.jasoncameron.dev/a b/my-org/build-api'',
           http_method = GET, headers = [(''Accept'', ''application/json'')]\<rparr>"
    using not_plain_path_spaced by (simp add: spaced_inputs_def BASE_URL_def)
qed

text \<open>
  C6, as stated, fails: with the operation \<open>bump\<close>, which is none of the eight, \<open>run\<close> calls
  \<open>fetch\<close>; the only error is the one made from the answer of the server, here a 404.
\<close>

theorem run_unrecognized_operation_reaches_network:
  "''bump'' \<notin> set Operation_names
   \<and> run fallback_platform (\<lambda>_ _. Resolved not_found) bump_inputs
     = (Inl (Error ''Request failed with status 404 (operation=bump)''),
        \<lparr>fetches = [\<lparr>url = ''https://abacus.jasoncameron.dev/bump/my-org/build-api'',
                      http_method = GET, headers = [(''Accept'', ''application/json'')]\<rparr>],
         sleeps = [], secrets = [], outputs = []\<rparr>)"
proof -
  have req: "requestWithRetries fallback_platform (\<lambda>_. Resolved not_found)
      = (Inr not_found, \<lparr>attempt = 1, backoffMs = 500, slept = []\<rparr>)"
    by (rule requestWithRetries_first_returned) (simp_all add: not_found_def)
  have resp: "interpretResponse fallback_platform ''bump'' not_found fx
      = (Inl (Error ''Request failed with status 404 (operation=bump)''), fx)" for fx
    by (simp add: interpretResponse_def readJsonSafely_def not_found_def ok_def prop_of_def
        dec.simps)
  show ?thesis
    by (simp add: Operation_names_def run_def Let_def bump_inputs_def operationOf_def
        checkNames_valid NAME_my_org NAME_build_api isAdminOp_def parseParameters_plain
        and_then_def buildUrl_bump dispatch_def req resp methodFor_def headersFor_def
        no_effects_def)
qed

lemma run_create:
  assumes "operationOf inp = ''create''"
    and "NAME_RE_test (namespace_in inp)" "NAME_RE_test (key_in inp)"
    and "parseInteger P ''initializer''
           (if initializer_in inp = [] then ''0'' else initializer_in inp) = Inr m"
  shows "run P server inp
      = dispatch P server ''create''
          \<lparr>url = BASE_URL @ ''/create/'' @ namespace_in inp @ ''/'' @ key_in inp
                  @ ''?initializer='' @ formEncode (Number_toString P m),
           http_method = GET, headers = [(''Accept'', ''application/json'')]\<rparr> no_effects"
proof -
  have "NAME_RE_test ''create''"
    by (simp add: NAME_RE_test_def name_char_def alnum_chars_def)
  from buildUrl_names [OF this assms(2,3), of P "Some m" None]
  have "buildUrl P ''create'' (namespace_in inp) (key_in inp) (Some m) None
      = Inr (BASE_URL @ ''/create/'' @ namespace_in inp @ ''/'' @ key_in inp
              @ ''?initializer='' @ formEncode (Number_toString P m))"
    by simp
  then show ?thesis
    using assms(1,4)
    by (simp add: run_def Let_def checkNames_valid [OF assms(2,3)] isAdminOp_def
        parseParameters_def and_then_def methodFor_def headersFor_def no_effects_def)
qed

lemma run_cong:
  assumes "operationOf a = operationOf b" "namespace_in a = namespace_in b" "key_in a = key_in b"
    and "value_in a = value_in b" "admin_key_in a = admin_key_in b"
    and "parseParameters P (operationOf b)
           (if initializer_in a = [] then ''0'' else initializer_in a) (value_in b)
       = parseParameters P (operationOf b)
           (if initializer_in b = [] then ''0'' else initializer_in b) (value_in b)"
  shows "run P server a = run P server b"
  unfolding run_def Let_def assms by (rule refl)

text \<open>
  C10. For \<open>create\<close> with a valid namespace and key, an empty \<open>initializer\<close> input stands for
  \<open>0\<close>: every request then goes to \<open>.../create/namespace/key?initializer=0\<close>, and at least
  one is made; with any initializer, every request made has the query \<open>initializer\<close>. For
  every other operation the initializer input is not read at all (changing it changes
  nothing in the run), and \<open>buildUrl\<close> attaches no initializer.
\<close>

theorem run_initializer_only_for_create:
  "(operationOf inp = ''create'' \<and> NAME_RE_test (namespace_in inp) \<and> NAME_RE_test (key_in inp)
      \<and> initializer_in inp = [] \<longrightarrow>
      (\<exists>n\<ge>1. fetches (snd (run P server inp))
         = replicate n \<lparr>url = BASE_URL @ ''/create/'' @ namespace_in inp @ ''/'' @ key_in inp
                                 @ ''?initializer=0'',
                         http_method = GET, headers = [(''Accept'', ''application/json'')]\<rparr>))
   \<and> (operationOf inp = ''create'' \<and> NAME_RE_test (namespace_in inp)
        \<and> NAME_RE_test (key_in inp) \<longrightarrow>
      (\<forall>req \<in> set (fetches (snd (run P server inp))).
         \<exists>m. url req = BASE_URL @ ''/create/'' @ namespace_in inp @ ''/'' @ key_in inp
                         @ ''?initializer='' @ formEncode (Number_toString P m)))
   \<and> (operationOf inp \<noteq> ''create'' \<longrightarrow>
        run P server (inp\<lparr>initializer_in := x\<rparr>) = run P server inp)
   \<and> (op \<noteq> ''create'' \<longrightarrow> buildUrl P op namespace key i v = buildUrl P op namespace key None v)"
proof (intro conjI impI)
  assume a: "operationOf inp = ''create'' \<and> NAME_RE_test (namespace_in inp)
      \<and> NAME_RE_test (key_in inp) \<and> initializer_in inp = []"
  then have "parseInteger P ''initializer''
      (if initializer_in inp = [] then ''0'' else initializer_in inp) = Inr 0"
    by (simp add: parseInteger_def Number_0)
  from run_create [OF _ _ _ this, of server] a
  have "run P server inp = dispatch P server ''create''
          \<lparr>url = BASE_URL @ ''/create/'' @ namespace_in inp @ ''/'' @ key_in inp
                  @ ''?initializer=0'',
           http_method = GET, headers = [(''Accept'', ''application/json'')]\<rparr> no_effects"
    by (simp add: Number_toString_def dec.simps formEncode_def form_unit_def alnum_chars_def)
  then show "\<exists>n\<ge>1. fetches (snd (run P server inp))
         = replicate n \<lparr>url = BASE_URL @ ''/create/'' @ namespace_in inp @ ''/'' @ key_in inp
                                 @ ''?initializer=0'',
                         http_method = GET, headers = [(''Accept'', ''application/json'')]\<rparr>"
    using fetches_dispatch by simp
next
  assume a: "operationOf inp = ''create'' \<and> NAME_RE_test (namespace_in inp)
      \<and> NAME_RE_test (key_in inp)"
  let ?raw = "if initializer_in inp = [] then ''0'' else initializer_in inp"
  show "\<forall>req \<in> set (fetches (snd (run P server inp))).
         \<exists>m. url req = BASE_URL @ ''/create/'' @ namespace_in inp @ ''/'' @ key_in inp
                         @ ''?initializer='' @ formEncode (Number_toString P m)"
  proof (cases "parseInteger P ''initializer'' ?raw")
    case (Inl err)
    with a have "run P server inp = (Inl err, no_effects)"
      by (simp add: run_def Let_def checkNames_valid isAdminOp_def parseParameters_def
          and_then_def no_effects_def)
    then show ?thesis
      by (simp add: no_effects_def)
  next
    case (Inr m)
    from run_create [OF _ _ _ this, of server] a fetches_dispatch
      [of P server "''create''"
         "\<lparr>url = BASE_URL @ ''/create/'' @ namespace_in inp @ ''/'' @ key_in inp
                  @ ''?initializer='' @ formEncode (Number_toString P m),
           http_method = GET, headers = [(''Accept'', ''application/json'')]\<rparr>" no_effects]
    show ?thesis
      by auto
  qed
next
  assume "operationOf inp \<noteq> ''create''"
  then show "run P server (inp\<lparr>initializer_in := x\<rparr>) = run P server inp"
    by (intro run_cong) (simp_all add: operationOf_def parseParameters_def)
next
  assume "op \<noteq> ''create''"
  then show "buildUrl P op namespace key i v = buildUrl P op namespace key None v"
    by (simp add: buildUrl_def Let_def split: sum.splits)
qed

theorem run_initializer_only_for_create_witness:
  "\<forall>P server.
     (\<exists>n\<ge>1. fetches (snd (run P server create_inputs))
        = replicate n
            \<lparr>url = ''https://abacus.jasoncameron.dev/create/my-org/build-api?initializer=0'',
             http_method = GET, headers = [(''Accept'', ''application/json'')]\<rparr>)
     \<and> run P server (hit_inputs\<lparr>initializer_in := ''seven''\<rparr>) = run P server hit_inputs
     \<and> buildUrl P ''hit'' ''my-org'' ''build-api'' (Some 7) None
         = buildUrl P ''hit'' ''my-org'' ''build-api'' None None"
proof (intro allI conjI)
  fix P server
  note create = run_initializer_only_for_create
    [where inp = create_inputs and P = P and server = server, THEN conjunct1, rule_format]
  have "\<exists>n\<ge>1. fetches (snd (run P server create_inputs))
      = replicate n
          \<lparr>url = BASE_URL @ ''/create/'' @ namespace_in create_inputs @ ''/''
                  @ key_in create_inputs @ ''?initializer=0'',
           http_method = GET, headers = [(''Accept'', ''application/json'')]\<rparr>"
    by (rule create)
       (simp add: create_inputs_def operationOf_def NAME_my_org NAME_build_api)
  then show "\<exists>n\<ge>1. fetches (snd (run P server create_inputs))
      = replicate n
          \<lparr>url = ''https://abacus.jasoncameron.dev/create/my-org/build-api?initializer=0'',
           http_method = GET, headers = [(''Accept'', ''application/json'')]\<rparr>"
    by (simp add: create_inputs_def BASE_URL_def)
  note other = run_initializer_only_for_create
    [where inp = hit_inputs and P = P and server = server and x = "''seven''" and op = "''hit''"
       and namespace = "''my-org''" and key = "''build-api''" and i = "Some 7" and v = None,
     THEN conjunct2, THEN conjunct2]
  show "run P server (hit_inputs\<lparr>initializer_in := ''seven''\<rparr>) = run P server hit_inputs"
    by (rule other [THEN conjunct1, rule_format]) (simp add: hit_inputs_def operationOf_def)
  show "buildUrl P ''hit'' ''my-org'' ''build-api'' (Some 7) None
      = buildUrl P ''hit'' ''my-org'' ''build-api'' None None"
    by (rule other [THEN conjunct2, rule_format]) simp
qed

end
